theory Spec2Isabelle
  imports Main "HOL-Library.Word"
begin

unbundle bit_operations_syntax

section \<open>JavaScript numbers, restricted to the integers stfs.js computes with\<close>

text \<open>
  The numbers stfs.js stores, passes and returns are integers far below \<open>2 ^ 53\<close>, where
  JavaScript's arithmetic is exact, so a JavaScript number is an \<open>int\<close> here (the two
  quotients that are no integers are truncated at once, see the address translation).
  The bitwise operators first convert their operands to a signed 32-bit integer (ToInt32)
  and return one; the shift count is taken modulo 32. \<open>undefined\<close>, which an
  out-of-range read of a Uint8Array returns, is \<open>None\<close> of \<open>int option\<close>; ToInt32 of
  \<open>undefined\<close> is 0.
\<close>

definition ToInt32 :: "int \<Rightarrow> int" where
  "ToInt32 x = signed_take_bit 31 x"

definition js_shl :: "int \<Rightarrow> int \<Rightarrow> int" where
  "js_shl x y = ToInt32 (push_bit (nat (y mod 32)) (ToInt32 x))"

definition js_shr :: "int \<Rightarrow> int \<Rightarrow> int" where
  "js_shr x y = drop_bit (nat (y mod 32)) (ToInt32 x)"

definition js_and :: "int \<Rightarrow> int \<Rightarrow> int" where
  "js_and x y = ToInt32 x AND ToInt32 y"

definition js_or :: "int \<Rightarrow> int \<Rightarrow> int" where
  "js_or x y = ToInt32 x OR ToInt32 y"

text \<open>The remainder operator \<open>%\<close> takes the sign of the dividend.\<close>

definition js_rem :: "int \<Rightarrow> int \<Rightarrow> int" where
  "js_rem a b = sgn a * (\<bar>a\<bar> mod \<bar>b\<bar>)"

text \<open>A value read from the view, used as an operand of a bitwise operator.\<close>

definition num_of :: "int option \<Rightarrow> int" where
  "num_of v = (case v of None \<Rightarrow> 0 | Some n \<Rightarrow> n)"

section \<open>The global variables of stfs.js\<close>

type_synonym byte = "8 word"

text \<open>The strings stfs.js throws, and the errors the JavaScript runtime raises.\<close>

datatype error =
    NoPackageLoaded   \<comment> \<open>'No STFS package loaded, please run STFS_LoadPackage'\<close>
  | DirtyState        \<comment> \<open>'STFS.js is in a dirty state, please run STFS_Reset'\<close>
  | AlreadyLoaded     \<comment> \<open>'STFS file already loaded, please run STFS_Reset'\<close>
  | TooShort          \<comment> \<open>'Input file too short'\<close>
  | NotValidArchive   \<comment> \<open>'Input is not a valid STFS archive'\<close>
  | IsDirectory       \<comment> \<open>"This is a directory!"\<close>
  | TypeError         \<comment> \<open>a property read of \<open>null\<close> or \<open>undefined\<close>\<close>
  | RangeError        \<comment> \<open>a typed array outside its buffer, or a string too long for the engine\<close>

text \<open>The objects \<open>STFS_InitFS\<close> pushes to the file table (line 215).\<close>

record file_entry =
  fileName :: string
  nameLength :: int
  flags :: int
  parentDirectory :: int
  fileSize :: int
  startingBlock :: int
  numOfBlocks :: int

text \<open>
  \<open>STFS_FileTable\<close> starts as the empty array, \<open>STFS_InitFS\<close> assigns an array, and
  \<open>STFS_Reset\<close> assigns the boolean \<open>false\<close> (line 301).
\<close>

datatype file_table = JSFalse | JSArray "file_entry list"

text \<open>
  \<open>STFS_UInt8View\<close> is a Uint8Array over all of \<open>STFS_FileBuffer\<close>; the two are assigned
  together (lines 311-312, 296-297) and none of the functions modelled here writes a
  byte, so both hold the same bytes. \<open>None\<close> is \<open>null\<close>.
\<close>

record stfs_state =
  STFS_FileBuffer :: "byte list option"
  STFS_UInt8View :: "byte list option"
  STFS_Dirty :: bool
  STFS_PackageLoaded :: bool
  STFS_TableSizeShift :: int
  STFS_FileTable :: file_table

definition initial_state :: stfs_state where
  "initial_state =
     \<lparr>STFS_FileBuffer = None, STFS_UInt8View = None, STFS_Dirty = False,
      STFS_PackageLoaded = False, STFS_TableSizeShift = 0, STFS_FileTable = JSArray []\<rparr>"

definition STFS_CON :: int where "STFS_CON = 0x434F4E20"
definition STFS_LIVE :: int where "STFS_LIVE = 0x4C495645"
definition STFS_PIRS :: int where "STFS_PIRS = 0x50495253"

section \<open>Endianness swapping and reading functions (lines 50-95)\<close>

definition STFS_Swap24 :: "int \<Rightarrow> int" where
  "STFS_Swap24 i =
     js_and (js_or (js_or (js_shl (js_and i 0xff) 16) (js_and i 0x00ff00)) (js_shr i 16)) 0xffffff"

text \<open>Indexing a Uint8Array: \<open>undefined\<close> outside \<open>0 .. length - 1\<close>.\<close>

definition view_at :: "byte list \<Rightarrow> int \<Rightarrow> int option" where
  "view_at v i = (if 0 \<le> i \<and> i < int (length v) then Some (uint (v ! nat i)) else None)"

definition STFS_Read8 :: "stfs_state \<Rightarrow> int \<Rightarrow> error + int option" where
  "STFS_Read8 st offset =
     (if \<not> STFS_Dirty st then Inl NoPackageLoaded
      else case STFS_UInt8View st of
             None \<Rightarrow> Inl TypeError
           | Some v \<Rightarrow> Inr (view_at v offset))"

definition STFS_Read16 :: "stfs_state \<Rightarrow> int \<Rightarrow> error + int" where
  "STFS_Read16 st offset =
     (if \<not> STFS_Dirty st then Inl NoPackageLoaded
      else case STFS_Read8 st offset of
             Inl e \<Rightarrow> Inl e
           | Inr hi \<Rightarrow>
               (case STFS_Read8 st (offset + 1) of
                  Inl e \<Rightarrow> Inl e
                | Inr lo \<Rightarrow> Inr (js_and (js_or (js_shl (num_of hi) 8) (num_of lo)) 0xffff)))"

definition STFS_Read32 :: "stfs_state \<Rightarrow> int \<Rightarrow> error + int" where
  "STFS_Read32 st offset =
     (if \<not> STFS_Dirty st then Inl NoPackageLoaded
      else case STFS_Read16 st offset of
             Inl e \<Rightarrow> Inl e
           | Inr hi \<Rightarrow>
               (case STFS_Read16 st (offset + 2) of
                  Inl e \<Rightarrow> Inl e
                | Inr lo \<Rightarrow> Inr (js_and (js_or (js_shl hi 16) lo) 0xffffffff)))"

definition STFS_Read24 :: "stfs_state \<Rightarrow> int \<Rightarrow> error + int" where
  "STFS_Read24 st offset =
     (if \<not> STFS_Dirty st then Inl NoPackageLoaded
      else case STFS_Read32 st (offset - 1) of
             Inl e \<Rightarrow> Inl e
           | Inr w \<Rightarrow> Inr (js_and w 0xffffff))"

text \<open>
  \<open>STFS_ReadASCIIString\<close>: the loop over \<open>i = offset, ..., offset + length - 1\<close> is a
  recursion on the number of bytes left. A byte outside the view is \<open>undefined\<close>, which
  is not \<open>== 0\<close>, and \<open>String.fromCharCode(undefined)\<close> is the character 0.
\<close>

fun ascii_loop :: "byte list \<Rightarrow> int \<Rightarrow> nat \<Rightarrow> string \<Rightarrow> string" where
  "ascii_loop v i 0 str = str"
| "ascii_loop v i (Suc n) str =
     (case view_at v i of
        None \<Rightarrow> ascii_loop v (i + 1) n (str @ [char_of (0 :: int)])
      | Some c \<Rightarrow> if c = 0 then str else ascii_loop v (i + 1) n (str @ [char_of c]))"

definition STFS_ReadASCIIString :: "stfs_state \<Rightarrow> int \<Rightarrow> int \<Rightarrow> error + string" where
  "STFS_ReadASCIIString st offset len =
     (if \<not> STFS_PackageLoaded st then Inl NoPackageLoaded
      else if len \<le> 0 then Inr []
      else case STFS_UInt8View st of
             None \<Rightarrow> Inl TypeError
           | Some v \<Rightarrow> Inr (ascii_loop v offset (nat len) []))"

section \<open>Block address translation (lines 221-234)\<close>

text \<open>
  \<open>oBlockNum / 0xAA\<close> is a division of real numbers; \<open><<\<close> truncates its left operand
  to an integer. The division is only reached when \<open>oBlockNum >= 0xAA\<close>, where the
  truncated quotient is \<open>oBlockNum div 0xAA\<close>. Neither function reads a flag of the
  load state: the only global they use is \<open>STFS_TableSizeShift\<close>.
\<close>

definition STFS_BlockToOffset :: "stfs_state \<Rightarrow> int \<Rightarrow> int" where
  "STFS_BlockToOffset st blockNum =
     (let oBlockNum = blockNum;
          blockNum1 = (if oBlockNum \<ge> 0xAA
                       then blockNum + js_shl (oBlockNum div 0xAA + 1) (STFS_TableSizeShift st)
                       else blockNum);
          blockNum2 = (if oBlockNum \<ge> 0x70E4
                       then blockNum1 + js_shl (oBlockNum div 0x70E4 + 1) (STFS_TableSizeShift st)
                       else blockNum1)
      in 0xC000 + blockNum2 * 0x1000)"

definition STFS_BlockToHashOffset :: "stfs_state \<Rightarrow> int \<Rightarrow> int" where
  "STFS_BlockToHashOffset st blockNum =
     (let rec = js_rem blockNum 0xAA;
          tableIndex = (blockNum div 0xAA) * (if STFS_TableSizeShift st = 1 then 0xAC else 0xAB);
          tableIndex1 = (if blockNum \<ge> 0xAA
                         then tableIndex + js_shl (blockNum div 0x70E4 + 1) (STFS_TableSizeShift st)
                         else tableIndex);
          tableIndex2 = (if blockNum \<ge> 0x70E4
                         then tableIndex1 + js_shl 1 (STFS_TableSizeShift st)
                         else tableIndex1)
      in (if STFS_TableSizeShift st = 0 then 0xB000 else 0x0000) + tableIndex2 * 0x1000 + rec * 0x18)"

section \<open>Following a block chain (lines 236-246)\<close>

text \<open>
  The \<open>while (blockCount > 0)\<close> loop: \<open>blocks\<close> is never empty, \<open>blocks.at(-1)\<close> is its
  last element. The count decreases in every round, which bounds the loop.
\<close>

function walk_loop :: "stfs_state \<Rightarrow> int list \<Rightarrow> int \<Rightarrow> error + int list" where
  "walk_loop st blocks blockCount =
     (if blockCount > 0
      then (case STFS_Read24 st (STFS_BlockToHashOffset st (last blocks) + 0x15) of
              Inl e \<Rightarrow> Inl e
            | Inr newBlock \<Rightarrow>
                if newBlock = last blocks \<or> newBlock = 0xFFFFFF then Inr blocks
                else walk_loop st (blocks @ [newBlock]) (blockCount - 1))
      else Inr blocks)"
  by pat_completeness auto
termination
  by (relation "measure (\<lambda>(st, blocks, blockCount). nat blockCount)") auto

definition STFS_GetBlocksFromBlock :: "stfs_state \<Rightarrow> int \<Rightarrow> int \<Rightarrow> error + int list" where
  "STFS_GetBlocksFromBlock st blockNum blockCount = walk_loop st [blockNum] blockCount"

section \<open>Reading the file table (lines 197-219)\<close>

text \<open>One 64-byte record decoded into the object pushed to the table (lines 207-215).\<close>

definition read_entry :: "stfs_state \<Rightarrow> int \<Rightarrow> error + file_entry" where
  "read_entry st offset =
     (case STFS_Read8 st (offset + 0x28) of
        Inl e \<Rightarrow> Inl e
      | Inr rawLength \<Rightarrow>
     (case STFS_ReadASCIIString st offset (js_and (num_of rawLength) 0x3F) of
        Inl e \<Rightarrow> Inl e
      | Inr name \<Rightarrow>
     (case STFS_Read16 st (offset + 0x32) of
        Inl e \<Rightarrow> Inl e
      | Inr parent \<Rightarrow>
     (case STFS_Read32 st (offset + 0x34) of
        Inl e \<Rightarrow> Inl e
      | Inr fsize \<Rightarrow>
     (case STFS_Read24 st (offset + 0x2F) of
        Inl e \<Rightarrow> Inl e
      | Inr rawStart \<Rightarrow>
     (case STFS_Read24 st (offset + 0x29) of
        Inl e \<Rightarrow> Inl e
      | Inr rawCount \<Rightarrow>
          Inr \<lparr>fileName = name,
               nameLength = js_and (num_of rawLength) 0x3F,
               flags = js_shr (js_and (num_of rawLength) 0xC0) 6,
               parentDirectory = parent,
               fileSize = fsize,
               startingBlock = STFS_Swap24 rawStart,
               numOfBlocks = STFS_Swap24 rawCount\<rparr>))))))"

text \<open>
  The inner \<open>while (true)\<close> loop of \<open>STFS_InitFS\<close>, started at a block's data offset. It
  has no bound: it ends only at a record whose first byte is \<open>== 0\<close>, and a read past
  the end of the view gives \<open>undefined\<close>, which is not \<open>== 0\<close>. \<open>None\<close> is a loop that
  never ends. The result carries the table as pushed so far, also when a read throws.
\<close>

partial_function (option) scan_records ::
  "stfs_state \<Rightarrow> int \<Rightarrow> file_entry list \<Rightarrow> ((error + unit) \<times> file_entry list) option" where
  "scan_records st offset tbl =
     (case STFS_Read8 st offset of
        Inl e \<Rightarrow> Some (Inl e, tbl)
      | Inr first \<Rightarrow>
          if first = Some 0 then Some (Inr (), tbl)
          else (case read_entry st offset of
                  Inl e \<Rightarrow> Some (Inl e, tbl)
                | Inr entry \<Rightarrow> scan_records st (offset + 0x40) (tbl @ [entry])))"

text \<open>
  The outer \<open>for\<close> loop over \<open>tableBlocks\<close>: the \<open>break\<close> of line 206 leaves the inner
  loop only, and the next round starts at the next block's data offset.
\<close>

fun table_loop ::
  "stfs_state \<Rightarrow> int list \<Rightarrow> file_entry list \<Rightarrow> ((error + unit) \<times> file_entry list) option" where
  "table_loop st [] tbl = Some (Inr (), tbl)"
| "table_loop st (b # bs) tbl =
     (case scan_records st (STFS_BlockToOffset st b) tbl of
        None \<Rightarrow> None
      | Some (Inl e, tbl') \<Rightarrow> Some (Inl e, tbl')
      | Some (Inr u, tbl') \<Rightarrow> table_loop st bs tbl')"

definition STFS_InitFS :: "stfs_state \<Rightarrow> ((error + unit) \<times> stfs_state) option" where
  "STFS_InitFS st =
     (if \<not> STFS_PackageLoaded st then Some (Inl NoPackageLoaded, st)
      else
        let st1 = st\<lparr>STFS_FileTable := JSArray []\<rparr> in
        case STFS_Read32 st1 0x340 of
          Inl e \<Rightarrow> Some (Inl e, st1)
        | Inr entryID \<Rightarrow>
            let st2 = (if js_shr (js_and (entryID + 0xFFF) 0xF000) 0xC \<noteq> 0xB
                       then st1\<lparr>STFS_TableSizeShift := 1\<rparr> else st1) in
            (case STFS_Read24 st2 (0x379 + 0x4) of
               Inl e \<Rightarrow> Some (Inl e, st2)
             | Inr firstBlock \<Rightarrow>
            (case STFS_Read16 st2 (0x379 + 0x2) of
               Inl e \<Rightarrow> Some (Inl e, st2)
             | Inr blockCount \<Rightarrow>
            (case STFS_GetBlocksFromBlock st2 firstBlock blockCount of
               Inl e \<Rightarrow> Some (Inl e, st2)
             | Inr tableBlocks \<Rightarrow>
            (case table_loop st2 tableBlocks [] of
               None \<Rightarrow> None
             | Some (r, tbl) \<Rightarrow> Some (r, st2\<lparr>STFS_FileTable := JSArray tbl\<rparr>))))))"

definition STFS_GetFileTable :: "stfs_state \<Rightarrow> file_table" where
  "STFS_GetFileTable st = STFS_FileTable st"

section \<open>Paths and file contents (lines 256-277)\<close>

text \<open>
  \<open>STFS_FileTable[i]\<close>: \<open>undefined\<close> (\<open>None\<close>) outside the array, and for every index when
  the table is \<open>false\<close>. Reading \<open>fileName\<close> of \<open>undefined\<close> is a TypeError.
\<close>

definition table_at :: "file_table \<Rightarrow> int \<Rightarrow> file_entry option" where
  "table_at t i =
     (case t of
        JSFalse \<Rightarrow> None
      | JSArray es \<Rightarrow> if 0 \<le> i \<and> i < int (length es) then Some (es ! nat i) else None)"

text \<open>
  The \<open>while\<close> loop of \<open>STFS_GetFilePath\<close> has no counter and no set of visited entries.
  What ends it on every input is the engine: \<open>filePath\<close> grows by at least the \<open>"/"\<close> in
  every round, and a string concatenation whose result is longer than the engine's
  maximum string length throws \<open>RangeError: Invalid string length\<close>. That length is no
  part of stfs.js, so it is the parameter \<open>maxLength\<close> (\<open>2 ^ 29 - 24\<close> code units in V8). An
  engine whose memory runs out before that length is reached aborts the script at a
  shorter one; the model does not tell that apart from the thrown error.
\<close>

function path_loop :: "nat \<Rightarrow> file_table \<Rightarrow> file_entry \<Rightarrow> string \<Rightarrow> error + string" where
  "path_loop maxLength t file filePath =
     (if parentDirectory file \<noteq> 0xffff
      then (case table_at t (parentDirectory file) of
              None \<Rightarrow> Inl TypeError
            | Some parent \<Rightarrow>
                if length (fileName parent @ ''/'' @ filePath) > maxLength then Inl RangeError
                else path_loop maxLength t parent (fileName parent @ ''/'' @ filePath))
      else Inr filePath)"
  by pat_completeness auto
termination
  by (relation "measure (\<lambda>(maxLength, t, file, filePath). maxLength - length filePath)") auto

definition STFS_GetFilePath :: "nat \<Rightarrow> stfs_state \<Rightarrow> file_entry \<Rightarrow> error + string" where
  "STFS_GetFilePath maxLength st file =
     path_loop maxLength (STFS_FileTable st) file (fileName file)"

text \<open>
  \<open>new Uint8Array(buffer, byteOffset, length)\<close>: a RangeError when the offset or the
  length is negative or the range ends past the buffer; with \<open>null\<close> for the buffer, the
  empty array.
\<close>

definition new_Uint8Array :: "byte list option \<Rightarrow> int \<Rightarrow> int \<Rightarrow> error + byte list" where
  "new_Uint8Array buf byteOffset len =
     (case buf of
        None \<Rightarrow> Inr []
      | Some bytes \<Rightarrow>
          if byteOffset < 0 \<or> len < 0 \<or> byteOffset + len > int (length bytes)
          then Inl RangeError
          else Inr (take (nat len) (drop (nat byteOffset) bytes)))"

text \<open>The \<open>for\<close> loop of \<open>STFS_ReadFile\<close> over \<open>blocks\<close>, collecting \<open>blockArrays\<close>.\<close>

fun read_loop :: "stfs_state \<Rightarrow> int list \<Rightarrow> int \<Rightarrow> byte list list \<Rightarrow> error + byte list list" where
  "read_loop st [] readRemaining blockArrays = Inr blockArrays"
| "read_loop st (b # bs) readRemaining blockArrays =
     (case new_Uint8Array (STFS_FileBuffer st) (STFS_BlockToOffset st b)
             (if readRemaining < 0x1000 then readRemaining else 0x1000) of
        Inl e \<Rightarrow> Inl e
      | Inr arr \<Rightarrow>
          if readRemaining - 0x1000 \<le> 0 then Inr (blockArrays @ [arr])
          else read_loop st bs (readRemaining - 0x1000) (blockArrays @ [arr]))"

text \<open>
  \<open>STFS_ReadFile\<close> returns a URL of a Blob made of \<open>blockArrays\<close>; the model returns the
  parts of the Blob, whose contents are their concatenation.
\<close>

definition STFS_ReadFile :: "stfs_state \<Rightarrow> file_entry \<Rightarrow> error + byte list list" where
  "STFS_ReadFile st file =
     (if js_and (flags file) 2 = 2 then Inl IsDirectory
      else case STFS_GetBlocksFromBlock st (startingBlock file) (numOfBlocks file) of
             Inl e \<Rightarrow> Inl e
           | Inr blocks \<Rightarrow> read_loop st blocks (fileSize file) [])"

section \<open>Resetting and loading (lines 295-323)\<close>

definition STFS_Reset :: "stfs_state \<Rightarrow> stfs_state" where
  "STFS_Reset st =
     \<lparr>STFS_FileBuffer = None, STFS_UInt8View = None, STFS_Dirty = False,
      STFS_PackageLoaded = False, STFS_TableSizeShift = 0, STFS_FileTable = JSFalse\<rparr>"

text \<open>
  The argument is an ArrayBuffer, given by its bytes. The test of line 308,
  \<open>!abuf instanceof ArrayBuffer\<close>, is \<open>(!abuf) instanceof ArrayBuffer\<close>: a boolean is no
  ArrayBuffer, so that line never throws. The function returns the thrown string or
  \<open>true\<close>, and the globals as it leaves them.
\<close>

definition STFS_LoadPackage :: "stfs_state \<Rightarrow> byte list \<Rightarrow> (error + bool) \<times> stfs_state" where
  "STFS_LoadPackage st abuf =
     (if STFS_Dirty st then (Inl DirtyState, st)
      else if STFS_PackageLoaded st then (Inl AlreadyLoaded, st)
      else if int (length abuf) \<le> 0x971A then (Inl TooShort, st)
      else
        let st1 = st\<lparr>STFS_Dirty := True, STFS_FileBuffer := Some abuf,
                     STFS_UInt8View := Some abuf\<rparr> in
        case STFS_Read32 st1 0 of
          Inl e \<Rightarrow> (Inl e, st1)
        | Inr magic \<Rightarrow>
            if magic = STFS_CON \<or> magic = STFS_LIVE \<or> magic = STFS_PIRS
            then (Inr True, st1\<lparr>STFS_PackageLoaded := True\<rparr>)
            else (Inl NotValidArchive, st1))"

text \<open>A run of \<open>STFS_LoadPackage\<close> calls, one per buffer; the thrown strings and results in order.\<close>

fun load_all :: "stfs_state \<Rightarrow> byte list list \<Rightarrow> (error + bool) list \<times> stfs_state" where
  "load_all st [] = ([], st)"
| "load_all st (abuf # rest) =
     (case STFS_LoadPackage st abuf of
        (r, st') \<Rightarrow> (case load_all st' rest of (rs, st'') \<Rightarrow> (r # rs, st'')))"

section \<open>When the walk to the root ends\<close>

text \<open>
  \<open>chain_ends t file k\<close>: following \<open>parentDirectory\<close> from \<open>file\<close> through the table \<open>t\<close>
  arrives, after at most \<open>k\<close> entries, at the root value 0xFFFF or at an index that is
  no entry of the table.
\<close>

fun chain_ends :: "file_table \<Rightarrow> file_entry \<Rightarrow> nat \<Rightarrow> bool" where
  "chain_ends t file 0 = (parentDirectory file = 0xffff)"
| "chain_ends t file (Suc k) =
     (parentDirectory file = 0xffff \<or>
      (case table_at t (parentDirectory file) of
         None \<Rightarrow> True
       | Some parent \<Rightarrow> chain_ends t parent k))"

text \<open>
  \<open>walk_path t file filePath n\<close>: the entry and the path the loop of \<open>STFS_GetFilePath\<close>
  holds after \<open>n\<close> rounds when no string limit stops it; \<open>None\<close> when the walk has ended
  before.
\<close>

fun walk_path :: "file_table \<Rightarrow> file_entry \<Rightarrow> string \<Rightarrow> nat \<Rightarrow> (file_entry \<times> string) option" where
  "walk_path t file filePath 0 = Some (file, filePath)"
| "walk_path t file filePath (Suc n) =
     (if parentDirectory file = 0xffff then None
      else case table_at t (parentDirectory file) of
             None \<Rightarrow> None
           | Some parent \<Rightarrow> walk_path t parent (fileName parent @ ''/'' @ filePath) n)"

section \<open>Example containers\<close>

text \<open>A buffer of \<open>n\<close> bytes, zero but for the listed offsets.\<close>

definition sparse_image :: "nat \<Rightarrow> (nat \<times> byte) list \<Rightarrow> byte list" where
  "sparse_image n bytes = map (\<lambda>i. case map_of bytes i of None \<Rightarrow> 0 | Some b \<Rightarrow> b) [0..<n]"

text \<open>
  A container of 0xF000 bytes: the tag \<open>CON \<close>, the header size 0xAD0E at 0x340 (which
  keeps \<open>STFS_TableSizeShift\<close> at 0), a file table of 2 blocks starting at block 0, and
  the chains 0 \<rightarrow> 1, 2 and 3 \<rightarrow> 4 \<rightarrow> 5 in the hash table at 0xB000. Block 0 (at 0xC000)
  holds the record of a file \<open>a\<close> of 5000 bytes and 2 blocks starting at block 2, then a
  record starting with 0, then a record starting with \<open>x\<close>; block 1 (at 0xD000) holds
  the record of an empty file \<open>b\<close>.
\<close>

definition example_image :: "byte list" where
  "example_image = sparse_image 0xF000
     [(0, 0x43), (1, 0x4F), (2, 0x4E), (3, 0x20),
      (0x342, 0xAD), (0x343, 0x0E),
      (0x37C, 2),
      (0xB017, 1),
      (0xB02D, 0xFF), (0xB02E, 0xFF), (0xB02F, 0xFF),
      (0xB045, 0xFF), (0xB046, 0xFF), (0xB047, 0xFF),
      (0xB05F, 4),
      (0xB077, 5),
      (0xB08D, 0xFF), (0xB08E, 0xFF), (0xB08F, 0xFF),
      (0xC000, 0x61), (0xC028, 1), (0xC029, 2), (0xC02F, 2),
      (0xC032, 0xFF), (0xC033, 0xFF), (0xC036, 0x13), (0xC037, 0x88),
      (0xC080, 0x78),
      (0xD000, 0x62), (0xD028, 1), (0xD032, 0xFF), (0xD033, 0xFF)]"

text \<open>The globals after \<open>STFS_LoadPackage\<close> of that container.\<close>

definition example_state :: stfs_state where
  "example_state =
     \<lparr>STFS_FileBuffer = Some example_image, STFS_UInt8View = Some example_image,
      STFS_Dirty = True, STFS_PackageLoaded = True, STFS_TableSizeShift = 0,
      STFS_FileTable = JSArray []\<rparr>"

definition file_a :: file_entry where
  "file_a = \<lparr>fileName = ''a'', nameLength = 1, flags = 0, parentDirectory = 0xFFFF,
             fileSize = 5000, startingBlock = 2, numOfBlocks = 2\<rparr>"

definition file_b :: file_entry where
  "file_b = \<lparr>fileName = ''b'', nameLength = 1, flags = 0, parentDirectory = 0xFFFF,
             fileSize = 0, startingBlock = 0, numOfBlocks = 0\<rparr>"

text \<open>A table whose only entry names itself as its parent directory.\<close>

definition loop_dir :: file_entry where
  "loop_dir = \<lparr>fileName = ''d'', nameLength = 1, flags = 2, parentDirectory = 0,
               fileSize = 0, startingBlock = 0, numOfBlocks = 0\<rparr>"

definition loop_state :: stfs_state where
  "loop_state = example_state\<lparr>STFS_FileTable := JSArray [loop_dir]\<rparr>"

text \<open>A table with a directory, a directory in it and a file in that.\<close>

definition dir_d :: file_entry where
  "dir_d = \<lparr>fileName = ''d'', nameLength = 1, flags = 2, parentDirectory = 0xFFFF,
            fileSize = 0, startingBlock = 0, numOfBlocks = 0\<rparr>"

definition dir_e :: file_entry where
  "dir_e = \<lparr>fileName = ''e'', nameLength = 1, flags = 2, parentDirectory = 0,
            fileSize = 0, startingBlock = 0, numOfBlocks = 0\<rparr>"

definition file_f :: file_entry where
  "file_f = \<lparr>fileName = ''f'', nameLength = 1, flags = 0, parentDirectory = 1,
             fileSize = 0, startingBlock = 0, numOfBlocks = 0\<rparr>"

definition tree_table :: "file_entry list" where
  "tree_table = [dir_d, dir_e, file_f]"

definition tree_state :: stfs_state where
  "tree_state = example_state\<lparr>STFS_FileTable := JSArray tree_table\<rparr>"

section \<open>Arithmetic of the bitwise operators on small integers\<close>

lemma ToInt32_id: "- (2 ^ 31) \<le> x \<Longrightarrow> x < 2 ^ 31 \<Longrightarrow> ToInt32 x = x"
  unfolding ToInt32_def by (rule signed_take_bit_int_eq_self) simp_all

lemma ToInt32_idem: "ToInt32 (ToInt32 x) = ToInt32 x"
  by (simp add: ToInt32_def)

lemma ToInt32_or: "ToInt32 x OR ToInt32 y = ToInt32 (x OR y)"
  by (simp add: ToInt32_def bit_eq_iff bit_simps)

lemma ToInt32_eq_small:
  assumes "0 \<le> x" "x < 2 ^ 32" "0 \<le> m" 
  shows "ToInt32 x = m \<longleftrightarrow> x = m \<and> m < 2 ^ 31"
proof (cases "x < 2 ^ 31")
  case True
  then show ?thesis using assms by (auto simp add: ToInt32_id)
next
  case False
  then have "ToInt32 x \<le> x - 2 ^ 32"
    unfolding ToInt32_def using signed_take_bit_int_less_eq [of 31 x] by simp
  then show ?thesis using assms False by auto
qed

lemma js_shl_0: "0 \<le> x \<Longrightarrow> x < 2 ^ 30 \<Longrightarrow> js_shl x 0 = x"
  by (simp add: js_shl_def ToInt32_id)

lemma js_shl_1: "0 \<le> x \<Longrightarrow> x < 2 ^ 30 \<Longrightarrow> js_shl x 1 = 2 * x"
  by (simp add: js_shl_def ToInt32_id)

lemma read16_value:
  assumes "0 \<le> a" "a < 256" "0 \<le> b" "b < 256"
  shows "js_and (js_or (js_shl a 8) b) 0xffff = a * 256 + b"
proof -
  have s: "js_shl a 8 = push_bit 8 a"
    using assms by (simp add: js_shl_def ToInt32_id push_bit_eq_mult)
  have tb: "take_bit 8 b = b" using assms by (simp add: take_bit_int_eq_self)
  have r: "- (2 ^ 31) \<le> a * 256" "a * 256 < 2 ^ 31" using assms by simp_all
  have "js_or (push_bit 8 a) b = push_bit 8 a OR b"
    using assms r by (simp add: js_or_def ToInt32_id push_bit_eq_mult)
  also have "\<dots> = concat_bit 8 b a" by (simp add: concat_bit_def tb or.commute)
  also have "\<dots> = b + a * 256" by (simp add: concat_bit_eq tb push_bit_eq_mult)
  finally have o: "js_or (js_shl a 8) b = a * 256 + b" using s by simp
  have m: "(0xffff :: int) = mask 16" by (simp add: mask_eq_exp_minus_1)
  have "js_and (a * 256 + b) 0xffff = (a * 256 + b) AND mask 16"
    using assms unfolding m [symmetric] by (simp add: js_and_def ToInt32_id)
  also have "\<dots> = a * 256 + b"
    using assms by (simp add: take_bit_eq_mask [symmetric] take_bit_int_eq_self)
  finally show ?thesis using o by simp
qed

lemma read32_value:
  assumes "0 \<le> hi" "hi < 65536" "0 \<le> lo" "lo < 65536"
  shows "js_and (js_or (js_shl hi 16) lo) 0xffffffff = ToInt32 (hi * 65536 + lo)"
proof -
  have s: "js_shl hi 16 = ToInt32 (push_bit 16 hi)"
    using assms by (simp add: js_shl_def ToInt32_id)
  have tb: "take_bit 16 lo = lo" using assms by (simp add: take_bit_int_eq_self)
  have "js_or (js_shl hi 16) lo = ToInt32 (push_bit 16 hi OR lo)"
    unfolding s js_or_def ToInt32_idem by (rule ToInt32_or)
  also have "push_bit 16 hi OR lo = concat_bit 16 lo hi" by (simp add: concat_bit_def tb or.commute)
  also have "\<dots> = hi * 65536 + lo" by (simp add: concat_bit_eq tb push_bit_eq_mult)
  finally have o: "js_or (js_shl hi 16) lo = ToInt32 (hi * 65536 + lo)" .
  have m: "ToInt32 0xffffffff = - 1" by (simp add: ToInt32_def)
  show ?thesis unfolding o js_and_def ToInt32_idem m by simp
qed

lemma split_digit:
  fixes hi lo :: int
  assumes "0 \<le> lo" "lo < 2 ^ n"
  shows "(hi * 2 ^ n + lo) div 2 ^ n = hi" and "(hi * 2 ^ n + lo) mod 2 ^ n = lo"
  using assms by simp_all

lemma be32_digits:
  fixes a b c d :: int
  assumes "0 \<le> a" "a < 256" "0 \<le> b" "b < 256" "0 \<le> c" "c < 256" "0 \<le> d" "d < 256"
    and "(a * 256 + b) * 65536 + (c * 256 + d) = m"
  shows "a = m div 2 ^ 24 \<and> b = m div 2 ^ 16 mod 2 ^ 8 \<and> c = m div 2 ^ 8 mod 2 ^ 8 \<and> d = m mod 2 ^ 8"
proof -
  have lo: "0 \<le> c * 256 + d" "c * 256 + d < 2 ^ 16" using assms by simp_all
  have hi: "0 \<le> a * 256 + b" "a * 256 + b < 2 ^ 16" using assms by simp_all
  have 1: "m div 2 ^ 16 = a * 256 + b" and 2: "m mod 2 ^ 16 = c * 256 + d"
    using split_digit [of "c * 256 + d" 16 "a * 256 + b"] lo assms(9) by simp_all
  have 3: "(a * 256 + b) div 2 ^ 8 = a" "(a * 256 + b) mod 2 ^ 8 = b"
    using split_digit [of b 8 a] assms by simp_all
  have 4: "(c * 256 + d) div 2 ^ 8 = c" "(c * 256 + d) mod 2 ^ 8 = d"
    using split_digit [of d 8 c] assms by simp_all
  have "m div 2 ^ 24 = m div 2 ^ 16 div 2 ^ 8"
    by (simp add: zdiv_zmult2_eq [symmetric])
  then have a: "a = m div 2 ^ 24" using 1 3 by simp
  have b: "b = m div 2 ^ 16 mod 2 ^ 8" using 1 3 by simp
  have "m div 2 ^ 8 mod 2 ^ 8 = (m mod 2 ^ 16) div 2 ^ 8"
    using drop_bit_take_bit [of 8 16 m] by (simp add: drop_bit_eq_div take_bit_eq_mod)
  then have c: "c = m div 2 ^ 8 mod 2 ^ 8" using 2 4 by simp
  have "m mod 2 ^ 8 = (m mod 2 ^ 16) mod 2 ^ 8"
    using take_bit_take_bit [of 8 16 m] by (simp add: take_bit_eq_mod)
  then have d: "d = m mod 2 ^ 8" using 2 4 by simp
  show ?thesis using a b c d by simp
qed

lemma uint_byte_bounds: "0 \<le> uint (b :: byte)" "uint (b :: byte) < 256"
  using uint_bounded [of b] by simp_all

lemma byte_of_uint: "uint (b :: byte) = k \<Longrightarrow> b = word_of_int k"
  by auto

section \<open>Reads of a loaded container\<close>

lemma view_at_in: "0 \<le> i \<Longrightarrow> i < int (length v) \<Longrightarrow> view_at v i = Some (uint (v ! nat i))"
  by (simp add: view_at_def)

lemma Read8_loaded:
  "STFS_Dirty st \<Longrightarrow> STFS_UInt8View st = Some v \<Longrightarrow> STFS_Read8 st i = Inr (view_at v i)"
  by (simp add: STFS_Read8_def)

lemma Read16_loaded:
  assumes "STFS_Dirty st" "STFS_UInt8View st = Some v" "0 \<le> i" "i + 1 < int (length v)"
  shows "STFS_Read16 st i = Inr (uint (v ! nat i) * 256 + uint (v ! nat (i + 1)))"
proof -
  have a: "view_at v i = Some (uint (v ! nat i))" using assms by (simp add: view_at_in)
  have b: "view_at v (i + 1) = Some (uint (v ! nat (i + 1)))" using assms by (simp add: view_at_in)
  show ?thesis
    unfolding STFS_Read16_def Read8_loaded [OF assms(1,2)] a b
    using assms(1) by (simp add: num_of_def read16_value uint_byte_bounds)
qed

lemma Read32_loaded:
  assumes "STFS_Dirty st" "STFS_UInt8View st = Some v" "0 \<le> i" "i + 3 < int (length v)"
  shows "STFS_Read32 st i =
     Inr (ToInt32 ((uint (v ! nat i) * 256 + uint (v ! nat (i + 1))) * 65536
                   + (uint (v ! nat (i + 2)) * 256 + uint (v ! nat (i + 3)))))"
proof -
  have h: "STFS_Read16 st i = Inr (uint (v ! nat i) * 256 + uint (v ! nat (i + 1)))"
    using assms by (intro Read16_loaded) simp_all
  have "STFS_Read16 st (i + 2) = Inr (uint (v ! nat (i + 2)) * 256 + uint (v ! nat (i + 2 + 1)))"
    using assms by (intro Read16_loaded) simp_all
  then have l: "STFS_Read16 st (i + 2) = Inr (uint (v ! nat (i + 2)) * 256 + uint (v ! nat (i + 3)))"
    by (simp add: add.assoc)
  have b: "0 \<le> uint (v ! nat i) * 256 + uint (v ! nat (i + 1))"
    "uint (v ! nat i) * 256 + uint (v ! nat (i + 1)) < 65536"
    "0 \<le> uint (v ! nat (i + 2)) * 256 + uint (v ! nat (i + 3))"
    "uint (v ! nat (i + 2)) * 256 + uint (v ! nat (i + 3)) < 65536"
    using uint_byte_bounds [of "v ! nat i"] uint_byte_bounds [of "v ! nat (i + 1)"]
      uint_byte_bounds [of "v ! nat (i + 2)"] uint_byte_bounds [of "v ! nat (i + 3)"] by simp_all
  show ?thesis
    unfolding STFS_Read32_def h l using assms(1) by (simp add: read32_value [OF b])
qed

lemma list4_of_take:
  assumes "4 \<le> length xs"
  shows "take 4 xs = [xs ! 0, xs ! 1, xs ! 2, xs ! 3]"
proof -
  have "length (take 4 xs) = 4" using assms by simp
  moreover have "\<And>i. i < 4 \<Longrightarrow> take 4 xs ! i = xs ! i" by simp
  ultimately show ?thesis
    by (intro nth_equalityI) (auto simp add: nth_Cons' less_Suc_eq numeral_eq_Suc)
qed

lemma Read32_tag_value:
  assumes "STFS_Dirty st" "STFS_UInt8View st = Some abuf" "4 \<le> length abuf"
  shows "STFS_Read32 st 0 =
     Inr (ToInt32 ((uint (abuf ! 0) * 256 + uint (abuf ! 1)) * 65536
                   + (uint (abuf ! 2) * 256 + uint (abuf ! 3))))"
  using Read32_loaded [OF assms(1,2), of 0] assms(3)
  by (simp add: nat_add_distrib numeral_eq_Suc)

lemma tag_bytes_unique:
  fixes a b c d :: byte
  assumes "0 \<le> m" "m < 2 ^ 31"
    and "ToInt32 ((uint a * 256 + uint b) * 65536 + (uint c * 256 + uint d)) = m"
  shows "[a, b, c, d] = [word_of_int (m div 2 ^ 24), word_of_int (m div 2 ^ 16 mod 2 ^ 8),
                         word_of_int (m div 2 ^ 8 mod 2 ^ 8), word_of_int (m mod 2 ^ 8)]"
proof -
  let ?x = "(uint a * 256 + uint b) * 65536 + (uint c * 256 + uint d)"
  have xb: "0 \<le> ?x" "?x < 2 ^ 32"
    using uint_byte_bounds [of a] uint_byte_bounds [of b] uint_byte_bounds [of c] uint_byte_bounds [of d]
    by simp_all
  have "?x = m" using ToInt32_eq_small [OF xb assms(1)] assms(3) by simp
  from be32_digits [OF _ _ _ _ _ _ _ _ this]
  have "uint a = m div 2 ^ 24 \<and> uint b = m div 2 ^ 16 mod 2 ^ 8
      \<and> uint c = m div 2 ^ 8 mod 2 ^ 8 \<and> uint d = m mod 2 ^ 8"
    by (simp add: uint_byte_bounds)
  then show ?thesis by (simp add: byte_of_uint)
qed

lemma tag_CON: "ToInt32 ((uint (0x43 :: byte) * 256 + uint (0x4F :: byte)) * 65536
     + (uint (0x4E :: byte) * 256 + uint (0x20 :: byte))) = STFS_CON"
  by (simp add: ToInt32_def STFS_CON_def)

lemma tag_LIVE: "ToInt32 ((uint (0x4C :: byte) * 256 + uint (0x49 :: byte)) * 65536
     + (uint (0x56 :: byte) * 256 + uint (0x45 :: byte))) = STFS_LIVE"
  by (simp add: ToInt32_def STFS_LIVE_def)

lemma tag_PIRS: "ToInt32 ((uint (0x50 :: byte) * 256 + uint (0x49 :: byte)) * 65536
     + (uint (0x52 :: byte) * 256 + uint (0x53 :: byte))) = STFS_PIRS"
  by (simp add: ToInt32_def STFS_PIRS_def)

text \<open>The tag read from a buffer is a recognised one exactly for the three byte sequences.\<close>

lemma recognised_tag_iff:
  fixes a b c d :: byte
  defines "m \<equiv> ToInt32 ((uint a * 256 + uint b) * 65536 + (uint c * 256 + uint d))"
  shows "(m = STFS_CON \<or> m = STFS_LIVE \<or> m = STFS_PIRS) \<longleftrightarrow>
     [a, b, c, d] \<in> {[0x43, 0x4F, 0x4E, 0x20], [0x4C, 0x49, 0x56, 0x45], [0x50, 0x49, 0x52, 0x53]}"
proof
  assume "m = STFS_CON \<or> m = STFS_LIVE \<or> m = STFS_PIRS"
  then consider "m = STFS_CON" | "m = STFS_LIVE" | "m = STFS_PIRS" by blast
  then show "[a, b, c, d] \<in> {[0x43, 0x4F, 0x4E, 0x20], [0x4C, 0x49, 0x56, 0x45], [0x50, 0x49, 0x52, 0x53]}"
  proof cases
    case 1
    from tag_bytes_unique [of STFS_CON a b c d] 1 show ?thesis
      unfolding m_def by (simp add: STFS_CON_def)
  next
    case 2
    from tag_bytes_unique [of STFS_LIVE a b c d] 2 show ?thesis
      unfolding m_def by (simp add: STFS_LIVE_def)
  next
    case 3
    from tag_bytes_unique [of STFS_PIRS a b c d] 3 show ?thesis
      unfolding m_def by (simp add: STFS_PIRS_def)
  qed
next
  assume "[a, b, c, d] \<in> {[0x43, 0x4F, 0x4E, 0x20], [0x4C, 0x49, 0x56, 0x45], [0x50, 0x49, 0x52, 0x53]}"
  then consider "a = 0x43 \<and> b = 0x4F \<and> c = 0x4E \<and> d = 0x20"
    | "a = 0x4C \<and> b = 0x49 \<and> c = 0x56 \<and> d = 0x45"
    | "a = 0x50 \<and> b = 0x49 \<and> c = 0x52 \<and> d = 0x53" by auto
  then show "m = STFS_CON \<or> m = STFS_LIVE \<or> m = STFS_PIRS"
  proof cases
    case 1 then show ?thesis unfolding m_def using tag_CON by simp
  next
    case 2 then show ?thesis unfolding m_def using tag_LIVE by simp
  next
    case 3 then show ?thesis unfolding m_def using tag_PIRS by simp
  qed
qed

lemma Read16_Inr: "STFS_Dirty st \<Longrightarrow> STFS_UInt8View st = Some v \<Longrightarrow> \<exists>x. STFS_Read16 st i = Inr x"
  by (simp add: STFS_Read16_def Read8_loaded)

lemma Read32_Inr: "STFS_Dirty st \<Longrightarrow> STFS_UInt8View st = Some v \<Longrightarrow> \<exists>x. STFS_Read32 st i = Inr x"
  by (simp add: STFS_Read32_def STFS_Read16_def Read8_loaded)

lemma Read24_Inr: "STFS_Dirty st \<Longrightarrow> STFS_UInt8View st = Some v \<Longrightarrow> \<exists>x. STFS_Read24 st i = Inr x"
  by (simp add: STFS_Read24_def STFS_Read32_def STFS_Read16_def Read8_loaded)

lemma ReadASCIIString_Inr:
  "STFS_PackageLoaded st \<Longrightarrow> STFS_UInt8View st = Some v \<Longrightarrow> \<exists>x. STFS_ReadASCIIString st i n = Inr x"
  by (simp add: STFS_ReadASCIIString_def)

lemma read_entry_Inr:
  assumes "STFS_Dirty st" "STFS_PackageLoaded st" "STFS_UInt8View st = Some v"
  shows "\<exists>e. read_entry st off = Inr e"
proof -
  obtain name where 1: "STFS_ReadASCIIString st off (js_and (num_of (view_at v (off + 0x28))) 0x3F) = Inr name"
    using ReadASCIIString_Inr [OF assms(2,3)] by blast
  obtain parent where 2: "STFS_Read16 st (off + 0x32) = Inr parent"
    using Read16_Inr [OF assms(1,3)] by blast
  obtain fsize where 3: "STFS_Read32 st (off + 0x34) = Inr fsize"
    using Read32_Inr [OF assms(1,3)] by blast
  obtain rawStart where 4: "STFS_Read24 st (off + 0x2F) = Inr rawStart"
    using Read24_Inr [OF assms(1,3)] by blast
  obtain rawCount where 5: "STFS_Read24 st (off + 0x29) = Inr rawCount"
    using Read24_Inr [OF assms(1,3)] by blast
  show ?thesis
    unfolding read_entry_def Read8_loaded [OF assms(1,3)] by (simp add: 1 2 3 4 5)
qed

section \<open>The example container\<close>

lemma length_sparse_image: "length (sparse_image n bytes) = n"
  by (simp add: sparse_image_def)

lemma view_at_sparse_image:
  "view_at (sparse_image n bytes) i =
     (if 0 \<le> i \<and> i < int n
      then Some (uint (case map_of bytes (nat i) of None \<Rightarrow> 0 | Some b \<Rightarrow> b)) else None)"
  by (auto simp add: view_at_def sparse_image_def nat_less_iff)

lemma take4_sparse_image:
  "4 \<le> n \<Longrightarrow> take 4 (sparse_image n bytes) =
     map (\<lambda>i. case map_of bytes i of None \<Rightarrow> 0 | Some b \<Rightarrow> b) [0, 1, 2, 3]"
proof -
  assume "4 \<le> n"
  then have "take 4 [0..<n] = [0..<4]" by (simp add: take_upt)
  moreover have "[0..<4] = [0, 1, 2, 3]" by (simp add: upt_rec)
  ultimately show ?thesis by (simp add: sparse_image_def take_map)
qed

lemmas js_eval = num_of_def js_and_def js_or_def js_shl_def js_shr_def js_rem_def ToInt32_def

lemmas read_eval = STFS_Read24_def STFS_Read32_def STFS_Read16_def STFS_Read8_def

lemmas example_eval = example_image_def example_state_def view_at_sparse_image

lemma example_loaded:
  "STFS_Dirty example_state" "STFS_PackageLoaded example_state"
  "STFS_UInt8View example_state = Some example_image"
  "STFS_FileBuffer example_state = Some example_image"
  "STFS_TableSizeShift example_state = 0"
  by (simp_all add: example_state_def)

lemma length_example_image: "length example_image = 0xF000"
  by (simp add: example_image_def length_sparse_image)

lemma take4_example_image: "take 4 example_image = [0x43, 0x4F, 0x4E, 0x20]"
  by (simp add: example_image_def take4_sparse_image)

lemma example_Read8: "STFS_Read8 example_state i = Inr (view_at example_image i)"
  by (rule Read8_loaded [OF example_loaded(1,3)])

lemma example_offsets:
  "STFS_BlockToOffset example_state 0 = 0xC000"
  "STFS_BlockToOffset example_state 1 = 0xD000"
  "STFS_BlockToOffset example_state 2 = 0xE000"
  by (simp_all add: STFS_BlockToOffset_def)

lemma example_next_0:
  "STFS_Read24 example_state (STFS_BlockToHashOffset example_state 0 + 0x15) = Inr 1"
  by (simp add: STFS_BlockToHashOffset_def example_eval read_eval js_eval)

lemma example_next_1:
  "STFS_Read24 example_state (STFS_BlockToHashOffset example_state 1 + 0x15) = Inr 0xFFFFFF"
  by (simp add: STFS_BlockToHashOffset_def example_eval read_eval js_eval)

lemma example_next_2:
  "STFS_Read24 example_state (STFS_BlockToHashOffset example_state 2 + 0x15) = Inr 0xFFFFFF"
  by (simp add: STFS_BlockToHashOffset_def example_eval read_eval js_eval)

lemma example_next_3:
  "STFS_Read24 example_state (STFS_BlockToHashOffset example_state 3 + 0x15) = Inr 4"
  by (simp add: STFS_BlockToHashOffset_def example_eval read_eval js_eval)

lemma example_next_4:
  "STFS_Read24 example_state (STFS_BlockToHashOffset example_state 4 + 0x15) = Inr 5"
  by (simp add: STFS_BlockToHashOffset_def example_eval read_eval js_eval)

lemma example_root_chain: "STFS_GetBlocksFromBlock example_state 0 2 = Inr [0, 1]"
  by (simp add: STFS_GetBlocksFromBlock_def example_next_0 example_next_1)

lemma example_chain_2: "STFS_GetBlocksFromBlock example_state 2 2 = Inr [2]"
  by (simp add: STFS_GetBlocksFromBlock_def example_next_2)

lemma example_first_bytes:
  "view_at example_image 0xC000 = Some 0x61" "view_at example_image 0xC040 = Some 0"
  "view_at example_image 0xC080 = Some 0x78"
  "view_at example_image 0xD000 = Some 0x62" "view_at example_image 0xD040 = Some 0"
  by (simp_all add: example_image_def view_at_sparse_image)

lemma char_a: "char_of (0x61 :: int) = CHR ''a''" by code_simp

lemma char_b: "char_of (0x62 :: int) = CHR ''b''" by code_simp

lemma example_name_a: "STFS_ReadASCIIString example_state 0xC000 1 = Inr ''a''"
  by (simp add: STFS_ReadASCIIString_def example_loaded example_first_bytes char_a)

lemma example_name_b: "STFS_ReadASCIIString example_state 0xD000 1 = Inr ''b''"
  by (simp add: STFS_ReadASCIIString_def example_loaded example_first_bytes char_b)

lemma example_entry_a: "read_entry example_state 0xC000 = Inr file_a"
proof -
  have 0: "STFS_Read8 example_state (0xC000 + 0x28) = Inr (Some 1)"
    by (simp add: example_eval read_eval)
  have 1: "STFS_Read16 example_state (0xC000 + 0x32) = Inr 0xFFFF"
    by (simp add: example_eval read_eval js_eval)
  have 2: "STFS_Read32 example_state (0xC000 + 0x34) = Inr 5000"
    by (simp add: example_eval read_eval js_eval)
  have 3: "STFS_Read24 example_state (0xC000 + 0x2F) = Inr 0x20000"
    by (simp add: example_eval read_eval js_eval)
  have 4: "STFS_Read24 example_state (0xC000 + 0x29) = Inr 0x20000"
    by (simp add: example_eval read_eval js_eval)
  have 5: "STFS_Swap24 0x20000 = 2" by (simp add: STFS_Swap24_def js_eval)
  have 6: "js_and (num_of (Some 1)) 0x3F = 1" "js_shr (js_and (num_of (Some 1)) 0xC0) 6 = 0"
    by (simp_all add: js_eval)
  show ?thesis
    unfolding read_entry_def 0 1 2 3 4 by (simp add: 5 6 example_name_a file_a_def)
qed

lemma example_entry_b: "read_entry example_state 0xD000 = Inr file_b"
proof -
  have 0: "STFS_Read8 example_state (0xD000 + 0x28) = Inr (Some 1)"
    by (simp add: example_eval read_eval)
  have 1: "STFS_Read16 example_state (0xD000 + 0x32) = Inr 0xFFFF"
    by (simp add: example_eval read_eval js_eval)
  have 2: "STFS_Read32 example_state (0xD000 + 0x34) = Inr 0"
    by (simp add: example_eval read_eval js_eval)
  have 3: "STFS_Read24 example_state (0xD000 + 0x2F) = Inr 0"
    by (simp add: example_eval read_eval js_eval)
  have 4: "STFS_Read24 example_state (0xD000 + 0x29) = Inr 0"
    by (simp add: example_eval read_eval js_eval)
  have 5: "STFS_Swap24 0 = 0" by (simp add: STFS_Swap24_def js_eval)
  have 6: "js_and (num_of (Some 1)) 0x3F = 1" "js_shr (js_and (num_of (Some 1)) 0xC0) 6 = 0"
    by (simp_all add: js_eval)
  show ?thesis
    unfolding read_entry_def 0 1 2 3 4 by (simp add: 5 6 example_name_b file_b_def)
qed

lemma example_state_table: "example_state\<lparr>STFS_FileTable := JSArray []\<rparr> = example_state"
  by (simp add: example_state_def)

section \<open>Block address translation\<close>

lemma block_offset_shift0:
  assumes "0 \<le> b" "b < 2 ^ 24" "STFS_TableSizeShift st = 0"
  shows "STFS_BlockToOffset st b =
     0xC000 + (b + (if b \<ge> 0xAA then b div 0xAA + 1 else 0)
                 + (if b \<ge> 0x70E4 then b div 0x70E4 + 1 else 0)) * 0x1000"
proof -
  have "0 \<le> b div 0xAA + 1" "b div 0xAA + 1 < 2 ^ 30" using assms by simp_all
  moreover have "0 \<le> b div 0x70E4 + 1" "b div 0x70E4 + 1 < 2 ^ 30" using assms by simp_all
  ultimately show ?thesis using assms(3)
    by (simp add: STFS_BlockToOffset_def Let_def js_shl_0)
qed

lemma block_offset_shift1:
  assumes "0 \<le> b" "b < 2 ^ 24" "STFS_TableSizeShift st = 1"
  shows "STFS_BlockToOffset st b =
     0xC000 + (b + (if b \<ge> 0xAA then 2 * (b div 0xAA + 1) else 0)
                 + (if b \<ge> 0x70E4 then 2 * (b div 0x70E4 + 1) else 0)) * 0x1000"
proof -
  have "0 \<le> b div 0xAA + 1" "b div 0xAA + 1 < 2 ^ 30" using assms by simp_all
  moreover have "0 \<le> b div 0x70E4 + 1" "b div 0x70E4 + 1 < 2 ^ 30" using assms by simp_all
  ultimately show ?thesis using assms(3)
    by (simp add: STFS_BlockToOffset_def Let_def js_shl_1)
qed

lemma hash_offset_shift0:
  assumes "0 \<le> b" "b < 2 ^ 24" "STFS_TableSizeShift st = 0"
  shows "STFS_BlockToHashOffset st b =
     0xB000 + (b div 0xAA * 0xAB + (if b \<ge> 0xAA then b div 0x70E4 + 1 else 0)
                 + (if b \<ge> 0x70E4 then 1 else 0)) * 0x1000 + b mod 0xAA * 0x18"
proof -
  have r: "js_rem b 0xAA = b mod 0xAA"
    using assms(1) by (cases "b = 0") (simp_all add: js_rem_def)
  have "0 \<le> b div 0x70E4 + 1" "b div 0x70E4 + 1 < 2 ^ 30" using assms by simp_all
  then have s: "js_shl (b div 0x70E4 + 1) 0 = b div 0x70E4 + 1" by (rule js_shl_0)
  have o: "js_shl 1 0 = 1" by (simp add: js_shl_0)
  show ?thesis
    using assms(3) by (simp add: STFS_BlockToHashOffset_def Let_def r s o)
qed

text \<open>
  C8. For logical block indices \<open>a < b\<close> of the 24-bit block range and either value (0 or 1)
  of \<open>STFS_TableSizeShift\<close>, the data offset of \<open>a\<close> is below the data offset of \<open>b\<close>:
  \<open>STFS_BlockToOffset\<close> is strictly increasing in the block index.
\<close>

theorem STFS_BlockToOffset_strictly_increasing:
  assumes "0 \<le> a" "a < b" "b < 2 ^ 24"
    and "STFS_TableSizeShift st = 0 \<or> STFS_TableSizeShift st = 1"
  shows "STFS_BlockToOffset st a < STFS_BlockToOffset st b"
proof -
  have a: "0 \<le> a" "a < 2 ^ 24" and b: "0 \<le> b" "b < 2 ^ 24" using assms by simp_all
  have d1: "a div 0xAA \<le> b div 0xAA" using assms by (simp add: zdiv_mono1)
  have d2: "a div 0x70E4 \<le> b div 0x70E4" using assms by (simp add: zdiv_mono1)
  have p1: "0 \<le> b div 0xAA" and p2: "0 \<le> b div 0x70E4" using b by simp_all
  from assms(4) show ?thesis
  proof
    assume s: "STFS_TableSizeShift st = 0"
    show ?thesis
      unfolding block_offset_shift0 [OF a s] block_offset_shift0 [OF b s]
      using assms(2) d1 d2 p1 p2 by (auto split: if_splits)
  next
    assume s: "STFS_TableSizeShift st = 1"
    show ?thesis
      unfolding block_offset_shift1 [OF a s] block_offset_shift1 [OF b s]
      using assms(2) d1 d2 p1 p2 by (auto split: if_splits)
  qed
qed

text \<open>
  The theorem at the first boundary, with the larger table size: block 169 is at 0xB5000,
  block 170 behind the two inserted table blocks at 0xBA000.
\<close>

theorem STFS_BlockToOffset_strictly_increasing_witness:
  "(0::int) \<le> 169 \<and> (169::int) < 170 \<and> (170::int) < 2 ^ 24
   \<and> STFS_TableSizeShift (initial_state\<lparr>STFS_TableSizeShift := 1\<rparr>) = 1
   \<and> STFS_BlockToOffset (initial_state\<lparr>STFS_TableSizeShift := 1\<rparr>) 169 = 0xB5000
   \<and> STFS_BlockToOffset (initial_state\<lparr>STFS_TableSizeShift := 1\<rparr>) 170 = 0xBA000
   \<and> STFS_BlockToOffset (initial_state\<lparr>STFS_TableSizeShift := 1\<rparr>) 169
       < STFS_BlockToOffset (initial_state\<lparr>STFS_TableSizeShift := 1\<rparr>) 170"
  using STFS_BlockToOffset_strictly_increasing
          [of 169 170 "initial_state\<lparr>STFS_TableSizeShift := 1\<rparr>"]
  by (simp add: STFS_BlockToOffset_def js_shl_def ToInt32_def)

text \<open>
  Below the first boundary, block 170, no table block is skipped, whatever the table size:
  the data offset is the base 0xC000 plus 4096 bytes per block.
\<close>

theorem STFS_BlockToOffset_below_first_boundary:
  "b < 0xAA \<Longrightarrow> STFS_BlockToOffset st b = 0xC000 + b * 0x1000"
  by (simp add: STFS_BlockToOffset_def)

text \<open>
  The theorem for block 169 with the larger table size.
\<close>

theorem STFS_BlockToOffset_below_first_boundary_witness:
  "(169 :: int) < 0xAA
   \<and> STFS_BlockToOffset (example_state\<lparr>STFS_TableSizeShift := 1\<rparr>) 169 = 0xC000 + 169 * 0x1000"
  using STFS_BlockToOffset_below_first_boundary
          [of 169 "example_state\<lparr>STFS_TableSizeShift := 1\<rparr>"]
  by simp

text \<open>
  C7, as the code has it. \<open>STFS_BlockToOffset\<close> and \<open>STFS_BlockToHashOffset\<close> test
  neither flag and cannot throw. Before a container has been loaded (the initial globals,
  or the globals after \<open>STFS_Reset\<close>), where \<open>STFS_TableSizeShift\<close> is 0, they return for
  every block index of the 24-bit range the offsets of the smaller table size.
\<close>

theorem address_translation_without_load:
  assumes "st = initial_state \<or> st = STFS_Reset s" and "0 \<le> b" "b < 2 ^ 24"
  shows "\<not> STFS_Dirty st \<and> \<not> STFS_PackageLoaded st
     \<and> STFS_BlockToOffset st b =
         0xC000 + (b + (if b \<ge> 0xAA then b div 0xAA + 1 else 0)
                     + (if b \<ge> 0x70E4 then b div 0x70E4 + 1 else 0)) * 0x1000
     \<and> STFS_BlockToHashOffset st b =
         0xB000 + (b div 0xAA * 0xAB + (if b \<ge> 0xAA then b div 0x70E4 + 1 else 0)
                     + (if b \<ge> 0x70E4 then 1 else 0)) * 0x1000 + b mod 0xAA * 0x18"
proof -
  from assms(1) have f: "\<not> STFS_Dirty st" "\<not> STFS_PackageLoaded st" "STFS_TableSizeShift st = 0"
    by (auto simp add: initial_state_def STFS_Reset_def)
  show ?thesis
    using f(1,2) block_offset_shift0 [OF assms(2,3) f(3)] hash_offset_shift0 [OF assms(2,3) f(3)]
    by simp
qed

text \<open>
  The theorem after a reset, for block 170.
\<close>

theorem address_translation_without_load_witness:
  "(0::int) \<le> 170 \<and> (170::int) < 2 ^ 24
   \<and> \<not> STFS_Dirty (STFS_Reset example_state) \<and> \<not> STFS_PackageLoaded (STFS_Reset example_state)
   \<and> STFS_BlockToOffset (STFS_Reset example_state) 170 = 0xB8000
   \<and> STFS_BlockToHashOffset (STFS_Reset example_state) 170 = 0xB7000"
  using address_translation_without_load [of "STFS_Reset example_state" example_state 170]
  by simp

text \<open>
  C7 as claimed fails: on the initial globals, where \<open>STFS_Read8\<close> throws, both
  translations of block 0 return an offset.
\<close>

theorem address_translation_has_no_state_check:
  "\<not> STFS_Dirty initial_state \<and> \<not> STFS_PackageLoaded initial_state
   \<and> STFS_Read8 initial_state 0 = Inl NoPackageLoaded
   \<and> STFS_BlockToOffset initial_state 0 = 0xC000
   \<and> STFS_BlockToHashOffset initial_state 0 = 0xB000"
  by (simp add: initial_state_def STFS_Read8_def STFS_BlockToOffset_def
        STFS_BlockToHashOffset_def js_rem_def)

section \<open>The chain walk\<close>

text \<open>The loop appends at most \<open>blockCount\<close> blocks to the ones it starts with.\<close>

lemma walk_loop_length:
  "walk_loop st blocks blockCount = Inr bs \<Longrightarrow>
   int (length bs) \<le> int (length blocks) + max 0 blockCount"
proof (induction st blocks blockCount rule: walk_loop.induct)
  case (1 st blocks blockCount)
  show ?case
  proof (cases "blockCount > 0")
    case False
    with "1.prems" show ?thesis by simp
  next
    case True
    show ?thesis
    proof (cases "STFS_Read24 st (STFS_BlockToHashOffset st (last blocks) + 0x15)")
      case (Inl e)
      with True "1.prems" show ?thesis by simp
    next
      case (Inr newBlock)
      show ?thesis
      proof (cases "newBlock = last blocks \<or> newBlock = 0xFFFFFF")
        case True
        with \<open>blockCount > 0\<close> Inr "1.prems" show ?thesis by auto
      next
        case False
        with \<open>blockCount > 0\<close> Inr "1.prems"
        have "walk_loop st (blocks @ [newBlock]) (blockCount - 1) = Inr bs" by simp
        from "1.IH" [OF \<open>blockCount > 0\<close> Inr False this] \<open>blockCount > 0\<close>
        show ?thesis by simp
      qed
    qed
  qed
qed

lemma walk_loop_prefix:
  "walk_loop st blocks blockCount = Inr bs \<Longrightarrow> take (length blocks) bs = blocks"
proof (induction st blocks blockCount rule: walk_loop.induct)
  case (1 st blocks blockCount)
  show ?case
  proof (cases "blockCount > 0")
    case False
    with "1.prems" show ?thesis by simp
  next
    case True
    show ?thesis
    proof (cases "STFS_Read24 st (STFS_BlockToHashOffset st (last blocks) + 0x15)")
      case (Inl e)
      with True "1.prems" show ?thesis by simp
    next
      case (Inr newBlock)
      show ?thesis
      proof (cases "newBlock = last blocks \<or> newBlock = 0xFFFFFF")
        case True
        with \<open>blockCount > 0\<close> Inr "1.prems" show ?thesis by auto
      next
        case False
        with \<open>blockCount > 0\<close> Inr "1.prems"
        have "walk_loop st (blocks @ [newBlock]) (blockCount - 1) = Inr bs" by simp
        from "1.IH" [OF \<open>blockCount > 0\<close> Inr False this]
        have "take (Suc (length blocks)) bs = blocks @ [newBlock]" by simp
        then have "take (length blocks) (take (Suc (length blocks)) bs) = blocks" by simp
        then show ?thesis by (simp add: min_def)
      qed
    qed
  qed
qed

text \<open>
  The sequence \<open>STFS_GetBlocksFromBlock\<close> returns starts with the start block and holds at
  most one block more than \<open>blockCount\<close> (one block when \<open>blockCount\<close> is not positive).
\<close>

theorem STFS_GetBlocksFromBlock_length:
  assumes "STFS_GetBlocksFromBlock st blockNum blockCount = Inr bs"
  shows "take 1 bs = [blockNum] \<and> int (length bs) \<le> 1 + max 0 blockCount"
  using walk_loop_prefix [of st "[blockNum]" blockCount bs]
    walk_loop_length [of st "[blockNum]" blockCount bs] assms
  by (simp add: STFS_GetBlocksFromBlock_def)

text \<open>
  The theorem on the root chain of the example container, which ends before the count does.
\<close>

theorem STFS_GetBlocksFromBlock_length_witness:
  "STFS_GetBlocksFromBlock example_state 0 7 = Inr [0, 1]
   \<and> take 1 [0, 1 :: int] = [0] \<and> int (length [0, 1 :: int]) \<le> 1 + max 0 7"
proof -
  have w: "STFS_GetBlocksFromBlock example_state 0 7 = Inr [0, 1]"
    by (simp add: STFS_GetBlocksFromBlock_def example_next_0 example_next_1)
  from STFS_GetBlocksFromBlock_length [OF w] w show ?thesis by simp
qed

text \<open>
  C1. The claim is that the sequence \<open>STFS_GetBlocksFromBlock\<close> returns is never longer
  than the expected count. The loop counts the blocks it appends and not the start block:
  in the example container, where block 3 is followed by 4 and 5, the walk from block 3
  with the count 2 returns three blocks.
\<close>

theorem walk_count_2_returns_three_blocks:
  "STFS_GetBlocksFromBlock example_state 3 2 = Inr [3, 4, 5]"
  by (simp add: STFS_GetBlocksFromBlock_def example_next_3 example_next_4)

text \<open>
  C2. The claim is that the walk with the expected count 1 returns the start block alone,
  whatever its chain record holds. In the example container the chain record of block 3
  names block 4, and the walk from block 3 with the count 1 returns both.
\<close>

theorem walk_count_1_returns_two_blocks:
  "STFS_GetBlocksFromBlock example_state 3 1 = Inr [3, 4]"
  by (simp add: STFS_GetBlocksFromBlock_def example_next_3)

section \<open>Reading the file table\<close>

lemma scan_stop:
  "STFS_Read8 st off = Inr (Some 0) \<Longrightarrow> scan_records st off tbl = Some (Inr (), tbl)"
  by (subst scan_records.simps) simp

lemma scan_step:
  "STFS_Read8 st off = Inr first \<Longrightarrow> first \<noteq> Some 0 \<Longrightarrow> read_entry st off = Inr e \<Longrightarrow>
   scan_records st off tbl = scan_records st (off + 0x40) (tbl @ [e])"
  by (subst scan_records.simps) simp

text \<open>
  The inner loop on a loaded container: it pushes one entry per record up to the first
  record that starts with 0, and ends there.
\<close>

lemma scan_records_until_zero:
  assumes "STFS_Dirty st" "STFS_PackageLoaded st" "STFS_UInt8View st = Some v"
  shows "(\<forall>k<n. view_at v (off + 0x40 * int k) \<noteq> Some 0) \<Longrightarrow>
         view_at v (off + 0x40 * int n) = Some 0 \<Longrightarrow>
         scan_records st off tbl =
           Some (Inr (), tbl @ map (\<lambda>k. projr (read_entry st (off + 0x40 * int k))) [0..<n])"
proof (induction n arbitrary: off tbl)
  case 0
  then have "STFS_Read8 st off = Inr (Some 0)" by (simp add: Read8_loaded [OF assms(1,3)])
  then show ?case by (simp add: scan_stop)
next
  case (Suc n)
  from Suc.prems(1) have nz: "view_at v off \<noteq> Some 0" by force
  obtain e where e: "read_entry st off = Inr e" using read_entry_Inr [OF assms] by blast
  have step: "scan_records st off tbl = scan_records st (off + 0x40) (tbl @ [e])"
    by (rule scan_step [OF Read8_loaded [OF assms(1,3)] nz e])
  have a: "\<forall>k<n. view_at v (off + 0x40 + 0x40 * int k) \<noteq> Some 0"
  proof (intro allI impI)
    fix k assume "k < n"
    then have "Suc k < Suc n" by simp
    with Suc.prems(1) have "view_at v (off + 0x40 * int (Suc k)) \<noteq> Some 0" by blast
    then show "view_at v (off + 0x40 + 0x40 * int k) \<noteq> Some 0" by (simp add: algebra_simps)
  qed
  have b: "view_at v (off + 0x40 + 0x40 * int n) = Some 0"
    using Suc.prems(2) by (simp add: algebra_simps)
  have m: "map (\<lambda>k. projr (read_entry st (off + 0x40 * int k))) [0..<Suc n]
      = e # map (\<lambda>k. projr (read_entry st (off + 0x40 + 0x40 * int k))) [0..<n]"
    unfolding map_upt_Suc using e by (simp add: algebra_simps)
  show ?case
    unfolding step Suc.IH [OF a b] m by simp
qed

text \<open>
  C3, as the code has it. On a loaded container, when the records at a block's data
  offset start with \<open>n\<close> records whose first byte is not 0 and then a record whose first
  byte is 0, the scan started at that block pushes exactly those \<open>n\<close> entries and nothing
  from a later record of that scan; the \<open>break\<close> ends the scan of that block only, and
  parsing continues at the data offset of the next block of the root chain.
\<close>

theorem zero_record_ends_the_scan_of_one_block:
  assumes "STFS_Dirty st" "STFS_PackageLoaded st" "STFS_UInt8View st = Some v"
    and "\<forall>k<n. view_at v (STFS_BlockToOffset st b + 0x40 * int k) \<noteq> Some 0"
    and "view_at v (STFS_BlockToOffset st b + 0x40 * int n) = Some 0"
  shows "scan_records st (STFS_BlockToOffset st b) tbl =
           Some (Inr (), tbl @ map (\<lambda>k. projr (read_entry st (STFS_BlockToOffset st b + 0x40 * int k))) [0..<n])
       \<and> table_loop st (b # bs) tbl =
           table_loop st bs
             (tbl @ map (\<lambda>k. projr (read_entry st (STFS_BlockToOffset st b + 0x40 * int k))) [0..<n])"
  using scan_records_until_zero [OF assms(1,2,3,4,5), of tbl] by simp

lemma example_scan_0: "scan_records example_state 0xC000 tbl = Some (Inr (), tbl @ [file_a])"
proof -
  have "scan_records example_state 0xC000 tbl = scan_records example_state (0xC000 + 0x40) (tbl @ [file_a])"
    by (rule scan_step [OF example_Read8 _ example_entry_a]) (simp add: example_first_bytes)
  also have "\<dots> = Some (Inr (), tbl @ [file_a])"
    by (rule scan_stop) (simp add: example_Read8 example_first_bytes)
  finally show ?thesis .
qed

lemma example_scan_1: "scan_records example_state 0xD000 tbl = Some (Inr (), tbl @ [file_b])"
proof -
  have "scan_records example_state 0xD000 tbl = scan_records example_state (0xD000 + 0x40) (tbl @ [file_b])"
    by (rule scan_step [OF example_Read8 _ example_entry_b]) (simp add: example_first_bytes)
  also have "\<dots> = Some (Inr (), tbl @ [file_b])"
    by (rule scan_stop) (simp add: example_Read8 example_first_bytes)
  finally show ?thesis .
qed

lemma InitFS_example:
  "STFS_InitFS (example_state\<lparr>STFS_FileTable := t\<rparr>) =
     Some (Inr (), example_state\<lparr>STFS_FileTable := JSArray [file_a, file_b]\<rparr>)"
proof -
  have l: "STFS_PackageLoaded (example_state\<lparr>STFS_FileTable := t\<rparr>)"
    by (simp add: example_loaded)
  have c: "example_state\<lparr>STFS_FileTable := t, STFS_FileTable := JSArray []\<rparr> = example_state"
    by (simp add: example_state_def)
  have 1: "STFS_Read32 example_state 0x340 = Inr 0xAD0E"
    by (simp add: example_eval read_eval js_eval)
  have 2: "js_shr (js_and 0xBD0D 0xF000) 0xC = 0xB" by (simp add: js_eval)
  have 3: "STFS_Read24 example_state 0x37D = Inr 0"
    by (simp add: example_eval read_eval js_eval)
  have 4: "STFS_Read16 example_state 0x37B = Inr 2"
    by (simp add: example_eval read_eval js_eval)
  show ?thesis
    unfolding STFS_InitFS_def Let_def c
    using l by (simp add: 1 2 3 4 example_root_chain example_offsets example_scan_0 example_scan_1)
qed

text \<open>
  The theorem for block 0 of the example container, followed by block 1.
\<close>

theorem zero_record_ends_the_scan_of_one_block_witness:
  "view_at example_image (STFS_BlockToOffset example_state 0) = Some 0x61
   \<and> view_at example_image (STFS_BlockToOffset example_state 0 + 0x40) = Some 0
   \<and> scan_records example_state (STFS_BlockToOffset example_state 0) [] = Some (Inr (), [file_a])
   \<and> table_loop example_state [0, 1] [] = table_loop example_state [1] [file_a]
   \<and> table_loop example_state [1] [file_a] = Some (Inr (), [file_a, file_b])"
proof -
  have h1: "\<forall>k<1. view_at example_image (STFS_BlockToOffset example_state 0 + 0x40 * int k) \<noteq> Some 0"
    by (simp add: example_offsets example_first_bytes)
  have h2: "view_at example_image (STFS_BlockToOffset example_state 0 + 0x40 * int 1) = Some 0"
    by (simp add: example_offsets example_first_bytes)
  have t: "table_loop example_state [1] [file_a] = Some (Inr (), [file_a, file_b])"
    by (simp add: example_offsets example_scan_1)
  from zero_record_ends_the_scan_of_one_block [OF example_loaded(1,2,3) h1 h2, of "[]" "[1]"]
  show ?thesis
    using t by (simp add: example_offsets example_first_bytes example_entry_a)
qed

text \<open>
  C3 as claimed fails: in the example container the root chain is blocks 0 and 1, the
  second record of block 0 starts with 0, and \<open>STFS_InitFS\<close> still produces the entry of
  file \<open>b\<close> from block 1.
\<close>

theorem InitFS_reads_on_after_a_zero_record:
  "STFS_GetBlocksFromBlock example_state 0 2 = Inr [0, 1]
   \<and> STFS_Read8 example_state (STFS_BlockToOffset example_state 0 + 0x40) = Inr (Some 0)
   \<and> read_entry example_state (STFS_BlockToOffset example_state 1) = Inr file_b
   \<and> STFS_InitFS example_state =
        Some (Inr (), example_state\<lparr>STFS_FileTable := JSArray [file_a, file_b]\<rparr>)"
  using InitFS_example [of "JSArray []"]
  by (simp add: example_state_table example_root_chain example_offsets example_Read8
        example_first_bytes example_entry_b)

section \<open>Reading a file\<close>

text \<open>
  The loop of \<open>STFS_ReadFile\<close> when the blocks, all inside the buffer, run out before the
  bytes left do: one array of 4096 bytes per block, and a normal return.
\<close>

lemma read_loop_exhausted:
  assumes "STFS_FileBuffer st = Some bytes"
  shows "(\<forall>b \<in> set blocks. 0 \<le> STFS_BlockToOffset st b
                            \<and> STFS_BlockToOffset st b + 0x1000 \<le> int (length bytes)) \<Longrightarrow>
         int (length blocks) * 0x1000 < remaining \<Longrightarrow>
         read_loop st blocks remaining arrs =
           Inr (arrs @ map (\<lambda>b. take 0x1000 (drop (nat (STFS_BlockToOffset st b)) bytes)) blocks)"
proof (induction blocks arbitrary: remaining arrs)
  case Nil
  show ?case by simp
next
  case (Cons b blocks)
  from Cons.prems(1) have r: "0 \<le> STFS_BlockToOffset st b"
    "STFS_BlockToOffset st b + 0x1000 \<le> int (length bytes)" by simp_all
  from Cons.prems(2) have big: "\<not> remaining < 0x1000" "\<not> remaining - 0x1000 \<le> 0"
    and rest: "int (length blocks) * 0x1000 < remaining - 0x1000" by simp_all
  have arr: "new_Uint8Array (Some bytes) (STFS_BlockToOffset st b) 0x1000 =
      Inr (take 0x1000 (drop (nat (STFS_BlockToOffset st b)) bytes))"
    using r by (simp add: new_Uint8Array_def)
  from Cons.prems(1) have "\<forall>b \<in> set blocks. 0 \<le> STFS_BlockToOffset st b
      \<and> STFS_BlockToOffset st b + 0x1000 \<le> int (length bytes)" by simp
  from Cons.IH [OF this rest] show ?case
    using big by (simp add: assms arr)
qed

lemma length_concat_blocks:
  "(\<forall>b \<in> set blocks. 0 \<le> STFS_BlockToOffset st b
                        \<and> STFS_BlockToOffset st b + 0x1000 \<le> int (length bytes)) \<Longrightarrow>
   int (length (concat (map (\<lambda>b. take 0x1000 (drop (nat (STFS_BlockToOffset st b)) bytes)) blocks)))
     = int (length blocks) * 0x1000"
proof (induction blocks)
  case Nil
  show ?case by simp
next
  case (Cons b blocks)
  from Cons.prems have r: "0 \<le> STFS_BlockToOffset st b"
    "STFS_BlockToOffset st b + 0x1000 \<le> int (length bytes)" by simp_all
  then have "length (take 0x1000 (drop (nat (STFS_BlockToOffset st b)) bytes)) = 0x1000"
    by simp
  moreover from Cons have "int (length (concat (map (\<lambda>b. take 0x1000 (drop (nat (STFS_BlockToOffset st b)) bytes)) blocks)))
     = int (length blocks) * 0x1000" by simp
  ultimately show ?case by simp
qed

text \<open>
  C5, as the code has it. For an entry that is no directory, when the blocks of the chain
  walk, each inside the buffer, hold fewer bytes than \<open>fileSize\<close>, \<open>STFS_ReadFile\<close> returns
  normally the 4096 bytes of each block of the walk, fewer than \<open>fileSize\<close> bytes in all.
  Nothing is thrown or reported: the code has no signal for truncated data.
\<close>

theorem STFS_ReadFile_short_output_is_silent:
  assumes "js_and (flags f) 2 \<noteq> 2"
    and "STFS_GetBlocksFromBlock st (startingBlock f) (numOfBlocks f) = Inr blocks"
    and "int (length blocks) * 0x1000 < fileSize f"
    and "STFS_FileBuffer st = Some bytes"
    and "\<forall>b \<in> set blocks. 0 \<le> STFS_BlockToOffset st b
                            \<and> STFS_BlockToOffset st b + 0x1000 \<le> int (length bytes)"
  shows "STFS_ReadFile st f =
           Inr (map (\<lambda>b. take 0x1000 (drop (nat (STFS_BlockToOffset st b)) bytes)) blocks)
       \<and> int (length (concat (map (\<lambda>b. take 0x1000 (drop (nat (STFS_BlockToOffset st b)) bytes)) blocks)))
           = int (length blocks) * 0x1000
       \<and> int (length blocks) * 0x1000 < fileSize f"
  using assms(1,2,3) read_loop_exhausted [OF assms(4,5,3), of "[]"] length_concat_blocks [OF assms(5)]
  by (simp add: STFS_ReadFile_def)

text \<open>
  The theorem for file \<open>a\<close> of the example container: 5000 bytes in a chain of one block.
\<close>

theorem STFS_ReadFile_short_output_is_silent_witness:
  "js_and (flags file_a) 2 \<noteq> 2
   \<and> STFS_GetBlocksFromBlock example_state (startingBlock file_a) (numOfBlocks file_a) = Inr [2]
   \<and> fileSize file_a = 5000
   \<and> STFS_BlockToOffset example_state 2 + 0x1000 = int (length example_image)
   \<and> STFS_ReadFile example_state file_a = Inr [take 0x1000 (drop 0xE000 example_image)]
   \<and> length (take 0x1000 (drop 0xE000 example_image)) = 0x1000"
proof -
  have 1: "js_and (flags file_a) 2 \<noteq> 2" by (simp add: file_a_def js_eval)
  have 2: "STFS_GetBlocksFromBlock example_state (startingBlock file_a) (numOfBlocks file_a) = Inr [2]"
    by (simp add: file_a_def example_chain_2)
  have 3: "int (length [2 :: int]) * 0x1000 < fileSize file_a" by (simp add: file_a_def)
  have 5: "\<forall>b \<in> set [2 :: int]. 0 \<le> STFS_BlockToOffset example_state b
      \<and> STFS_BlockToOffset example_state b + 0x1000 \<le> int (length example_image)"
    by (simp add: example_offsets length_example_image)
  from STFS_ReadFile_short_output_is_silent [OF 1 2 3 example_loaded(4) 5]
  show ?thesis
    using 1 2 by (simp add: example_offsets length_example_image file_a_def)
qed

text \<open>
  C5 as claimed fails: file \<open>a\<close> of the example container has 5000 bytes and a chain that
  ends after block 2; \<open>STFS_ReadFile\<close> returns the 4096 bytes of that block and no error.
\<close>

theorem STFS_ReadFile_returns_short_without_error:
  "js_and (flags file_a) 2 = 0
   \<and> fileSize file_a = 5000
   \<and> STFS_GetBlocksFromBlock example_state (startingBlock file_a) (numOfBlocks file_a) = Inr [2]
   \<and> STFS_ReadFile example_state file_a = Inr [take 0x1000 (drop 0xE000 example_image)]
   \<and> length (concat [take 0x1000 (drop 0xE000 example_image)]) = 4096"
proof -
  have "new_Uint8Array (Some example_image) 0xE000 0x1000 = Inr (take 0x1000 (drop 0xE000 example_image))"
    by (simp add: new_Uint8Array_def length_example_image)
  then have "read_loop example_state [2] 5000 [] = Inr [take 0x1000 (drop 0xE000 example_image)]"
    by (simp add: example_offsets example_loaded)
  then show ?thesis
    by (simp add: STFS_ReadFile_def file_a_def example_chain_2 js_eval length_example_image)
qed

section \<open>Path reconstruction\<close>

text \<open>The path only grows.\<close>

lemma walk_path_length:
  "walk_path t f p n = Some (f', p') \<Longrightarrow> length p \<le> length p'"
proof (induction n arbitrary: f p)
  case 0
  then show ?case by simp
next
  case (Suc n)
  from Suc.prems obtain parent where
    "walk_path t parent (fileName parent @ ''/'' @ p) n = Some (f', p')"
    by (auto split: if_splits option.splits)
  from Suc.IH [OF this] show ?case by simp
qed

text \<open>
  As long as the path fits the engine's strings the loop goes on, round after round,
  whatever the size of the table.
\<close>

lemma path_loop_rounds:
  "walk_path t f p n = Some (f', p') \<Longrightarrow> length p' \<le> maxLength \<Longrightarrow>
   path_loop maxLength t f p = path_loop maxLength t f' p'"
proof (induction n arbitrary: f p)
  case 0
  then show ?case by simp
next
  case (Suc n)
  from Suc.prems(1) obtain parent where nr: "parentDirectory f \<noteq> 0xffff"
    and at: "table_at t (parentDirectory f) = Some parent"
    and w: "walk_path t parent (fileName parent @ ''/'' @ p) n = Some (f', p')"
    by (auto split: if_splits option.splits)
  from walk_path_length [OF w] Suc.prems(2)
  have fits: "\<not> length (fileName parent @ ''/'' @ p) > maxLength" by simp
  have "path_loop maxLength t f p = path_loop maxLength t parent (fileName parent @ ''/'' @ p)"
    using nr at fits by (subst path_loop.simps) simp
  also have "\<dots> = path_loop maxLength t f' p'" by (rule Suc.IH [OF w Suc.prems(2)])
  finally show ?case .
qed

text \<open>On a chain of parents that never ends, the loop ends at the string limit only.\<close>

lemma path_loop_cycle:
  "(\<forall>k. \<not> chain_ends t f k) \<Longrightarrow> path_loop maxLength t f p = Inl RangeError"
proof (induction maxLength t f p rule: path_loop.induct)
  case (1 maxLength t f p)
  from "1.prems" have "\<not> chain_ends t f 0" by blast
  then have nr: "parentDirectory f \<noteq> 0xffff" by simp
  from "1.prems" have "\<not> chain_ends t f (Suc 0)" by blast
  with nr obtain parent where at: "table_at t (parentDirectory f) = Some parent"
    by (auto split: option.splits)
  have never: "\<forall>k. \<not> chain_ends t parent k"
  proof
    fix k
    from "1.prems" have "\<not> chain_ends t f (Suc k)" by blast
    with nr at show "\<not> chain_ends t parent k" by simp
  qed
  show ?case
  proof (cases "length (fileName parent @ ''/'' @ p) > maxLength")
    case True
    with nr at show ?thesis by (subst path_loop.simps) simp
  next
    case False
    from "1.IH" [OF nr at False never] nr at False
    show ?thesis by (subst path_loop.simps) simp
  qed
qed

text \<open>A path is returned only when the parents reach the root value.\<close>

lemma path_loop_returns:
  "path_loop maxLength t f p = Inr r \<Longrightarrow> \<exists>k. chain_ends t f k"
  using path_loop_cycle [of t f maxLength p] by auto

text \<open>
  C6, as the code has it. \<open>STFS_GetFilePath\<close> ends on every entry, but through no bound by
  the table size and no cycle check. While the path fits the engine's strings the loop
  goes on for any number of rounds; it returns the path when the \<open>parentDirectory\<close>
  references reach the root value 0xFFFF and throws a TypeError at an index outside the
  table. When the references never end, as on a cycle, it ends only where the path
  outgrows the engine's maximum string length and the concatenation of line 260 throws a
  RangeError.
\<close>

theorem STFS_GetFilePath_ends_at_string_limit:
  "((\<forall>k. \<not> chain_ends (STFS_FileTable st) f k) \<longrightarrow>
      STFS_GetFilePath maxLength st f = Inl RangeError)
   \<and> (walk_path (STFS_FileTable st) f (fileName f) n = Some (f', p') \<and> length p' \<le> maxLength \<longrightarrow>
        STFS_GetFilePath maxLength st f = path_loop maxLength (STFS_FileTable st) f' p'
        \<and> (parentDirectory f' = 0xffff \<longrightarrow> STFS_GetFilePath maxLength st f = Inr p')
        \<and> (parentDirectory f' \<noteq> 0xffff \<and> table_at (STFS_FileTable st) (parentDirectory f') = None \<longrightarrow>
             STFS_GetFilePath maxLength st f = Inl TypeError))"
proof (intro conjI impI)
  assume "\<forall>k. \<not> chain_ends (STFS_FileTable st) f k"
  then show "STFS_GetFilePath maxLength st f = Inl RangeError"
    unfolding STFS_GetFilePath_def by (rule path_loop_cycle)
next
  assume w: "walk_path (STFS_FileTable st) f (fileName f) n = Some (f', p') \<and> length p' \<le> maxLength"
  then show r: "STFS_GetFilePath maxLength st f = path_loop maxLength (STFS_FileTable st) f' p'"
    unfolding STFS_GetFilePath_def using path_loop_rounds by blast
  {
    assume "parentDirectory f' = 0xffff"
    then have "path_loop maxLength (STFS_FileTable st) f' p' = Inr p'"
      by (subst path_loop.simps) simp
    with r show "STFS_GetFilePath maxLength st f = Inr p'" by simp
  }
  {
    assume "parentDirectory f' \<noteq> 0xffff \<and> table_at (STFS_FileTable st) (parentDirectory f') = None"
    then have "path_loop maxLength (STFS_FileTable st) f' p' = Inl TypeError"
      by (subst path_loop.simps) simp
    with r show "STFS_GetFilePath maxLength st f = Inl TypeError" by simp
  }
qed

lemma tree_table_at:
  "table_at (JSArray tree_table) 0 = Some dir_d" "table_at (JSArray tree_table) 1 = Some dir_e"
  by (simp_all add: table_at_def tree_table_def)

lemma tree_walk: "walk_path (JSArray tree_table) file_f ''f'' 2 = Some (dir_d, ''d/e/f'')"
  by (simp add: numeral_2_eq_2 tree_table_at file_f_def dir_e_def dir_d_def)

lemma loop_dir_never_ends: "\<not> chain_ends (JSArray [loop_dir]) loop_dir k"
  by (induction k) (simp_all add: loop_dir_def table_at_def)

lemma loop_dir_at: "table_at (JSArray [loop_dir]) (parentDirectory loop_dir) = Some loop_dir"
  by (simp add: table_at_def loop_dir_def)

lemma loop_walk: "walk_path (JSArray [loop_dir]) loop_dir ''d'' 3 = Some (loop_dir, ''d/d/d/d'')"
proof -
  have n: "parentDirectory loop_dir \<noteq> 0xffff" "fileName loop_dir = ''d''" by (simp_all add: loop_dir_def)
  show ?thesis by (simp add: numeral_3_eq_3 loop_dir_at n)
qed

text \<open>
  The theorem for a file two directories deep and for a directory that is its own parent,
  with the string limit of V8.
\<close>

theorem STFS_GetFilePath_ends_at_string_limit_witness:
  "walk_path (STFS_FileTable tree_state) file_f (fileName file_f) 2 = Some (dir_d, ''d/e/f'')
   \<and> parentDirectory dir_d = 0xffff
   \<and> STFS_GetFilePath 536870888 tree_state file_f = Inr ''d/e/f''
   \<and> STFS_GetFilePath 536870888 loop_state loop_dir = Inl RangeError"
proof -
  have w: "walk_path (STFS_FileTable tree_state) file_f (fileName file_f) 2 = Some (dir_d, ''d/e/f'')"
    using tree_walk by (simp add: tree_state_def file_f_def)
  have l: "length ''d/e/f'' \<le> (536870888 :: nat)" by simp
  have r: "parentDirectory dir_d = 0xffff" by (simp add: dir_d_def)
  have c: "\<forall>k. \<not> chain_ends (STFS_FileTable loop_state) loop_dir k"
    using loop_dir_never_ends by (simp add: loop_state_def)
  from STFS_GetFilePath_ends_at_string_limit [of tree_state file_f 536870888 2 dir_d "''d/e/f''"] w l r
  have "STFS_GetFilePath 536870888 tree_state file_f = Inr ''d/e/f''" by blast
  moreover from STFS_GetFilePath_ends_at_string_limit [of loop_state loop_dir 536870888 0 loop_dir "''d''"] c
  have "STFS_GetFilePath 536870888 loop_state loop_dir = Inl RangeError" by blast
  ultimately show ?thesis using w r by simp
qed

text \<open>
  C6 as claimed fails: in a table of one directory that is its own parent, the loop is
  still walking after three rounds, with the path \<open>d/d/d/d\<close>; no cycle is detected, and
  what ends the call is the RangeError of a path longer than the engine's strings.
\<close>

theorem STFS_GetFilePath_walks_past_the_table:
  "STFS_FileTable loop_state = JSArray [loop_dir]
   \<and> walk_path (STFS_FileTable loop_state) loop_dir (fileName loop_dir) 3 = Some (loop_dir, ''d/d/d/d'')
   \<and> STFS_GetFilePath 536870888 loop_state loop_dir
       = path_loop 536870888 (STFS_FileTable loop_state) loop_dir ''d/d/d/d''
   \<and> STFS_GetFilePath 536870888 loop_state loop_dir = Inl RangeError"
proof -
  have t: "STFS_FileTable loop_state = JSArray [loop_dir]" by (simp add: loop_state_def)
  have n: "fileName loop_dir = ''d''" by (simp add: loop_dir_def)
  have l: "length ''d/d/d/d'' \<le> (536870888 :: nat)" by simp
  have "path_loop 536870888 (JSArray [loop_dir]) loop_dir ''d''
      = path_loop 536870888 (JSArray [loop_dir]) loop_dir ''d/d/d/d''"
    by (rule path_loop_rounds [OF loop_walk l])
  moreover have "path_loop 536870888 (JSArray [loop_dir]) loop_dir ''d'' = Inl RangeError"
    by (rule path_loop_cycle) (simp add: loop_dir_never_ends)
  ultimately show ?thesis using loop_walk by (simp add: STFS_GetFilePath_def t n)
qed

section \<open>Loading\<close>

text \<open>
  \<open>STFS_LoadPackage\<close> on an unloaded library and a buffer longer than 0x971A bytes: the
  outcome depends on the first four bytes only, and the dirty flag is set either way.
\<close>

lemma LoadPackage_unloaded:
  assumes "\<not> STFS_Dirty st" "\<not> STFS_PackageLoaded st" "0x971A < length abuf"
  shows "STFS_LoadPackage st abuf =
     (if take 4 abuf \<in> {[0x43, 0x4F, 0x4E, 0x20], [0x4C, 0x49, 0x56, 0x45], [0x50, 0x49, 0x52, 0x53]}
      then (Inr True, st\<lparr>STFS_Dirty := True, STFS_FileBuffer := Some abuf,
                          STFS_UInt8View := Some abuf, STFS_PackageLoaded := True\<rparr>)
      else (Inl NotValidArchive, st\<lparr>STFS_Dirty := True, STFS_FileBuffer := Some abuf,
                                      STFS_UInt8View := Some abuf\<rparr>))"
proof -
  let ?st1 = "st\<lparr>STFS_Dirty := True, STFS_FileBuffer := Some abuf, STFS_UInt8View := Some abuf\<rparr>"
  have len: "4 \<le> length abuf" using assms(3) by simp
  have t: "take 4 abuf = [abuf ! 0, abuf ! 1, abuf ! 2, abuf ! 3]" by (rule list4_of_take [OF len])
  have r: "STFS_Read32 ?st1 0 =
     Inr (ToInt32 ((uint (abuf ! 0) * 256 + uint (abuf ! 1)) * 65536
                   + (uint (abuf ! 2) * 256 + uint (abuf ! 3))))"
    by (rule Read32_tag_value) (simp_all add: len)
  have "STFS_LoadPackage st abuf =
     (case STFS_Read32 ?st1 0 of
        Inl e \<Rightarrow> (Inl e, ?st1)
      | Inr magic \<Rightarrow>
          if magic = STFS_CON \<or> magic = STFS_LIVE \<or> magic = STFS_PIRS
          then (Inr True, ?st1\<lparr>STFS_PackageLoaded := True\<rparr>)
          else (Inl NotValidArchive, ?st1))"
    using assms by (simp add: STFS_LoadPackage_def Let_def)
  then show ?thesis
    unfolding r t using recognised_tag_iff [of "abuf ! 0" "abuf ! 1" "abuf ! 2" "abuf ! 3"]
    by simp
qed

lemma LoadPackage_dirty: "STFS_Dirty st \<Longrightarrow> STFS_LoadPackage st abuf = (Inl DirtyState, st)"
  by (simp add: STFS_LoadPackage_def)

lemma load_all_dirty:
  "STFS_Dirty st \<Longrightarrow> load_all st bufs = (replicate (length bufs) (Inl DirtyState), st)"
  by (induction bufs) (simp_all add: LoadPackage_dirty)

text \<open>
  C4, as the code has it. On an unloaded library and a buffer that starts with one of the
  three recognised tags, \<open>STFS_LoadPackage\<close> succeeds when the buffer has 0x971B bytes
  or more, one byte more than the threshold, and throws 'Input file too short', leaving
  the globals as they were, when it has exactly 0x971A bytes or fewer: the test of
  line 309 is \<open>byteLength <= 0x971A\<close>.
\<close>

theorem STFS_LoadPackage_threshold:
  assumes "\<not> STFS_Dirty st" "\<not> STFS_PackageLoaded st"
    and "take 4 abuf \<in> {[0x43, 0x4F, 0x4E, 0x20], [0x4C, 0x49, 0x56, 0x45], [0x50, 0x49, 0x52, 0x53]}"
  shows "(0x971B \<le> length abuf \<longrightarrow>
            STFS_LoadPackage st abuf =
              (Inr True, st\<lparr>STFS_Dirty := True, STFS_FileBuffer := Some abuf,
                             STFS_UInt8View := Some abuf, STFS_PackageLoaded := True\<rparr>))
       \<and> (length abuf \<le> 0x971A \<longrightarrow> STFS_LoadPackage st abuf = (Inl TooShort, st))"
proof (intro conjI impI)
  assume "0x971B \<le> length abuf"
  then have "0x971A < length abuf" by simp
  from LoadPackage_unloaded [OF assms(1,2) this] assms(3) show
    "STFS_LoadPackage st abuf =
       (Inr True, st\<lparr>STFS_Dirty := True, STFS_FileBuffer := Some abuf,
                      STFS_UInt8View := Some abuf, STFS_PackageLoaded := True\<rparr>)"
    by simp
next
  assume "length abuf \<le> 0x971A"
  then show "STFS_LoadPackage st abuf = (Inl TooShort, st)"
    using assms(1,2) by (simp add: STFS_LoadPackage_def)
qed

text \<open>
  The theorem for a buffer tagged \<open>LIVE\<close>, at 0x971B and at 0x971A bytes.
\<close>

theorem STFS_LoadPackage_threshold_witness:
  "\<not> STFS_Dirty initial_state \<and> \<not> STFS_PackageLoaded initial_state
   \<and> length (sparse_image 0x971B [(0, 0x4C), (1, 0x49), (2, 0x56), (3, 0x45)]) = 0x971B
   \<and> fst (STFS_LoadPackage initial_state
             (sparse_image 0x971B [(0, 0x4C), (1, 0x49), (2, 0x56), (3, 0x45)])) = Inr True
   \<and> STFS_PackageLoaded (snd (STFS_LoadPackage initial_state
             (sparse_image 0x971B [(0, 0x4C), (1, 0x49), (2, 0x56), (3, 0x45)])))
   \<and> length (sparse_image 0x971A [(0, 0x4C), (1, 0x49), (2, 0x56), (3, 0x45)]) = 0x971A
   \<and> STFS_LoadPackage initial_state
        (sparse_image 0x971A [(0, 0x4C), (1, 0x49), (2, 0x56), (3, 0x45)])
       = (Inl TooShort, initial_state)"
  using STFS_LoadPackage_threshold
          [of initial_state "sparse_image 0x971B [(0, 0x4C), (1, 0x49), (2, 0x56), (3, 0x45)]"]
        STFS_LoadPackage_threshold
          [of initial_state "sparse_image 0x971A [(0, 0x4C), (1, 0x49), (2, 0x56), (3, 0x45)]"]
  by (simp add: initial_state_def length_sparse_image take4_sparse_image)

text \<open>
  C4 as claimed fails: a buffer of exactly 0x971A bytes that starts with \<open>CON \<close> is
  refused as too short.
\<close>

theorem load_at_threshold_is_too_short:
  "length (sparse_image 0x971A [(0, 0x43), (1, 0x4F), (2, 0x4E), (3, 0x20)]) = 0x971A
   \<and> take 4 (sparse_image 0x971A [(0, 0x43), (1, 0x4F), (2, 0x4E), (3, 0x20)])
       = [0x43, 0x4F, 0x4E, 0x20]
   \<and> STFS_LoadPackage initial_state
        (sparse_image 0x971A [(0, 0x43), (1, 0x4F), (2, 0x4E), (3, 0x20)])
       = (Inl TooShort, initial_state)"
  by (simp add: STFS_LoadPackage_def initial_state_def length_sparse_image take4_sparse_image)

lemma InitFS_unloaded:
  "\<not> STFS_PackageLoaded st \<Longrightarrow> STFS_InitFS st = Some (Inl NoPackageLoaded, st)"
  by (simp add: STFS_InitFS_def)

lemma LoadPackage_after_Reset: "fst (STFS_LoadPackage (STFS_Reset st) abuf) \<noteq> Inl DirtyState"
  by (simp add: STFS_LoadPackage_def STFS_Reset_def STFS_Read32_def STFS_Read16_def
        STFS_Read8_def Let_def split: sum.split)

text \<open>
  C9. On an unloaded library, a buffer longer than 0x971A bytes that starts with none of
  the three recognised tags makes \<open>STFS_LoadPackage\<close> throw 'Input is not a valid STFS
  archive' and leaves the dirty flag set and the loaded flag clear, so the globals have
  changed. From then on every \<open>STFS_LoadPackage\<close> call throws the dirty-state error and
  changes nothing, \<open>STFS_InitFS\<close> throws and changes nothing, and only \<open>STFS_Reset\<close>
  clears the flag, after which a load no longer throws the dirty-state error.
\<close>

theorem failed_load_stays_dirty:
  assumes "\<not> STFS_Dirty st" "\<not> STFS_PackageLoaded st" "0x971A < length abuf"
    and "take 4 abuf \<notin> {[0x43, 0x4F, 0x4E, 0x20], [0x4C, 0x49, 0x56, 0x45], [0x50, 0x49, 0x52, 0x53]}"
    and "STFS_LoadPackage st abuf = (r, st')"
  shows "r = Inl NotValidArchive \<and> STFS_Dirty st' \<and> \<not> STFS_PackageLoaded st' \<and> st' \<noteq> st
       \<and> load_all st' bufs = (replicate (length bufs) (Inl DirtyState), st')
       \<and> STFS_InitFS st' = Some (Inl NoPackageLoaded, st')
       \<and> \<not> STFS_Dirty (STFS_Reset st')
       \<and> fst (STFS_LoadPackage (STFS_Reset st') abuf') \<noteq> Inl DirtyState"
proof -
  from LoadPackage_unloaded [OF assms(1,2,3)] assms(4,5)
  have r: "r = Inl NotValidArchive"
    and st': "st' = st\<lparr>STFS_Dirty := True, STFS_FileBuffer := Some abuf, STFS_UInt8View := Some abuf\<rparr>"
    by simp_all
  have d: "STFS_Dirty st'" and l: "\<not> STFS_PackageLoaded st'" using st' assms(2) by simp_all
  have "st' \<noteq> st" using d assms(1) by auto
  moreover have "\<not> STFS_Dirty (STFS_Reset st')" by (simp add: STFS_Reset_def)
  ultimately show ?thesis
    using r d l load_all_dirty [OF d] InitFS_unloaded [OF l] LoadPackage_after_Reset by simp
qed

text \<open>
  The theorem for a buffer of 0x971B bytes that starts with \<open>X\<close>, followed by two more
  loads, the first of them of a well-formed container.
\<close>

theorem failed_load_stays_dirty_witness:
  "\<not> STFS_Dirty initial_state \<and> \<not> STFS_PackageLoaded initial_state
   \<and> 0x971A < length (sparse_image 0x971B [(0, 0x58)])
   \<and> take 4 (sparse_image 0x971B [(0, 0x58)]) = [0x58, 0, 0, 0]
   \<and> STFS_LoadPackage initial_state (sparse_image 0x971B [(0, 0x58)])
       = (Inl NotValidArchive,
          initial_state\<lparr>STFS_Dirty := True,
                         STFS_FileBuffer := Some (sparse_image 0x971B [(0, 0x58)]),
                         STFS_UInt8View := Some (sparse_image 0x971B [(0, 0x58)])\<rparr>)
   \<and> load_all (initial_state\<lparr>STFS_Dirty := True,
                         STFS_FileBuffer := Some (sparse_image 0x971B [(0, 0x58)]),
                         STFS_UInt8View := Some (sparse_image 0x971B [(0, 0x58)])\<rparr>)
        [example_image, sparse_image 0x971B [(0, 0x58)]]
       = ([Inl DirtyState, Inl DirtyState],
          initial_state\<lparr>STFS_Dirty := True,
                         STFS_FileBuffer := Some (sparse_image 0x971B [(0, 0x58)]),
                         STFS_UInt8View := Some (sparse_image 0x971B [(0, 0x58)])\<rparr>)
   \<and> fst (STFS_LoadPackage
            (STFS_Reset (initial_state\<lparr>STFS_Dirty := True,
                         STFS_FileBuffer := Some (sparse_image 0x971B [(0, 0x58)]),
                         STFS_UInt8View := Some (sparse_image 0x971B [(0, 0x58)])\<rparr>))
            example_image) \<noteq> Inl DirtyState"
proof -
  let ?abuf = "sparse_image 0x971B [(0, 0x58)]"
  let ?st' = "initial_state\<lparr>STFS_Dirty := True, STFS_FileBuffer := Some ?abuf,
                              STFS_UInt8View := Some ?abuf\<rparr>"
  have 1: "\<not> STFS_Dirty initial_state" and 2: "\<not> STFS_PackageLoaded initial_state"
    by (simp_all add: initial_state_def)
  have 3: "0x971A < length ?abuf" by (simp add: length_sparse_image)
  have t: "take 4 ?abuf = [0x58, 0, 0, 0]" by (simp add: take4_sparse_image)
  have 4: "take 4 ?abuf \<notin> {[0x43, 0x4F, 0x4E, 0x20], [0x4C, 0x49, 0x56, 0x45], [0x50, 0x49, 0x52, 0x53]}"
    unfolding t by simp
  have 5: "STFS_LoadPackage initial_state ?abuf = (Inl NotValidArchive, ?st')"
    using LoadPackage_unloaded [OF 1 2 3] 4 by simp
  from failed_load_stays_dirty [OF 1 2 3 4 5, of "[example_image, ?abuf]" example_image]
  show ?thesis using 1 2 3 t 5 by simp
qed

section \<open>The file table after a reset\<close>

lemma LoadPackage_FileTable: "STFS_FileTable (snd (STFS_LoadPackage st abuf)) = STFS_FileTable st"
  by (simp add: STFS_LoadPackage_def Let_def split: sum.split)

lemma load_all_FileTable: "STFS_FileTable (snd (load_all st bufs)) = STFS_FileTable st"
proof (induction bufs arbitrary: st)
  case Nil
  show ?case by simp
next
  case (Cons abuf rest)
  obtain r st' where l: "STFS_LoadPackage st abuf = (r, st')" by (cases "STFS_LoadPackage st abuf")
  obtain rs st'' where a: "load_all st' rest = (rs, st'')" by (cases "load_all st' rest")
  have "STFS_FileTable st'' = STFS_FileTable st'" using Cons.IH [of st'] a by simp
  moreover have "STFS_FileTable st' = STFS_FileTable st" using LoadPackage_FileTable [of st abuf] l by simp
  ultimately show ?case using l a by simp
qed

lemma InitFS_table_is_array:
  "STFS_PackageLoaded s \<Longrightarrow> STFS_InitFS s = Some (r, s') \<Longrightarrow> \<exists>tbl. STFS_FileTable s' = JSArray tbl"
  by (auto simp add: STFS_InitFS_def Let_def split: sum.splits option.splits if_splits prod.splits)

text \<open>
  C10. After \<open>STFS_Reset\<close>, \<open>STFS_GetFileTable\<close> returns \<open>false\<close>, not an empty array, and
  it still does after any run of \<open>STFS_LoadPackage\<close> calls. An \<open>STFS_InitFS\<close> call that
  finds no package loaded throws and leaves \<open>false\<close>; one that finds a package loaded
  leaves an array, whether it returns or throws.
\<close>

theorem file_table_false_after_reset:
  "STFS_GetFileTable (STFS_Reset st) = JSFalse
   \<and> STFS_GetFileTable (snd (load_all (STFS_Reset st) bufs)) = JSFalse
   \<and> (STFS_InitFS (snd (load_all (STFS_Reset st) bufs)) = Some (r, s') \<longrightarrow>
        (if STFS_PackageLoaded (snd (load_all (STFS_Reset st) bufs))
         then \<exists>tbl. STFS_GetFileTable s' = JSArray tbl
         else STFS_GetFileTable s' = JSFalse))"
proof -
  let ?s = "snd (load_all (STFS_Reset st) bufs)"
  have 1: "STFS_FileTable (STFS_Reset st) = JSFalse" by (simp add: STFS_Reset_def)
  have 2: "STFS_FileTable ?s = JSFalse" using load_all_FileTable [of "STFS_Reset st" bufs] 1 by simp
  have 3: "STFS_InitFS ?s = Some (r, s') \<longrightarrow>
        (if STFS_PackageLoaded ?s then \<exists>tbl. STFS_GetFileTable s' = JSArray tbl
         else STFS_GetFileTable s' = JSFalse)"
  proof (cases "STFS_PackageLoaded ?s")
    case True
    then show ?thesis using InitFS_table_is_array [of ?s r s'] by (simp add: STFS_GetFileTable_def)
  next
    case False
    then show ?thesis using InitFS_unloaded [of ?s] 2 by (auto simp add: STFS_GetFileTable_def)
  qed
  show ?thesis using 1 2 3 by (simp add: STFS_GetFileTable_def)
qed

lemma load_example_after_reset:
  "load_all (STFS_Reset st) [example_image] = ([Inr True], example_state\<lparr>STFS_FileTable := JSFalse\<rparr>)"
proof -
  have 1: "\<not> STFS_Dirty (STFS_Reset st)" and 2: "\<not> STFS_PackageLoaded (STFS_Reset st)"
    by (simp_all add: STFS_Reset_def)
  have 3: "0x971A < length example_image" by (simp add: length_example_image)
  have "STFS_LoadPackage (STFS_Reset st) example_image =
      (Inr True, example_state\<lparr>STFS_FileTable := JSFalse\<rparr>)"
    unfolding LoadPackage_unloaded [OF 1 2 3] take4_example_image
    by (simp add: STFS_Reset_def example_state_def)
  then show ?thesis by simp
qed

text \<open>
  The theorem for a reset, a load of the example container and \<open>STFS_InitFS\<close>.
\<close>

theorem file_table_false_after_reset_witness:
  "STFS_GetFileTable (STFS_Reset example_state) = JSFalse
   \<and> load_all (STFS_Reset example_state) [example_image]
       = ([Inr True], example_state\<lparr>STFS_FileTable := JSFalse\<rparr>)
   \<and> STFS_GetFileTable (example_state\<lparr>STFS_FileTable := JSFalse\<rparr>) = JSFalse
   \<and> STFS_PackageLoaded (example_state\<lparr>STFS_FileTable := JSFalse\<rparr>)
   \<and> STFS_InitFS (example_state\<lparr>STFS_FileTable := JSFalse\<rparr>)
       = Some (Inr (), example_state\<lparr>STFS_FileTable := JSArray [file_a, file_b]\<rparr>)
   \<and> STFS_GetFileTable (example_state\<lparr>STFS_FileTable := JSArray [file_a, file_b]\<rparr>)
       = JSArray [file_a, file_b]"
  using file_table_false_after_reset
          [of example_state "[example_image]" "Inr ()"
              "example_state\<lparr>STFS_FileTable := JSArray [file_a, file_b]\<rparr>"]
  unfolding load_example_after_reset
  by (simp add: InitFS_example example_loaded STFS_GetFileTable_def)

end
